theory Spec2Isabelle
  imports Complex_Main "HOL-Library.Word" "HOL-Library.Multiset"
begin

section \<open>Values of the host language\<close>

text \<open>
  A string is a sequence of UTF-16 code units. \<open>str\<close> embeds an ASCII literal.
  Numbers are modelled by integers: the cursor, the indices of a selection and the time
  stamp are integers in every run that starts from the user interface; fractional and
  infinite numbers, and rounding beyond \<open>2 ^ 53\<close>, are outside the model.
\<close>

type_synonym jsstring = "16 word list"

definition str :: "string \<Rightarrow> jsstring" where
  "str s = map of_char s"

datatype jsval =
    Undefined
  | Null
  | Bool bool
  | Num int
  | Str jsstring
  | Arr "jsval list"
  | Obj "(jsstring \<times> jsval) list"

datatype error = TypeError

text \<open>
  Reading a property \<open>v.k\<close>. Reading from \<open>undefined\<close> or \<open>null\<close> throws. The source only
  reads the names \<open>playlist\<close>, \<open>currentIndex\<close>, \<open>originalIndices\<close> and \<open>term\<close> this way,
  which no primitive value and no array has, so that those reads give \<open>undefined\<close>.
\<close>

fun getProp :: "jsval \<Rightarrow> jsstring \<Rightarrow> error + jsval" where
  "getProp Undefined k = Inl TypeError"
| "getProp Null k = Inl TypeError"
| "getProp (Obj fs) k = Inr (case map_of fs k of None \<Rightarrow> Undefined | Some v \<Rightarrow> v)"
| "getProp v k = Inr Undefined"

fun truthy :: "jsval \<Rightarrow> bool" where
  "truthy Undefined = False"
| "truthy Null = False"
| "truthy (Bool b) = b"
| "truthy (Num n) = (n \<noteq> 0)"
| "truthy (Str s) = (s \<noteq> [])"
| "truthy (Arr xs) = True"
| "truthy (Obj fs) = True"

fun isArray :: "jsval \<Rightarrow> bool" where
  "isArray (Arr xs) = True"
| "isArray v = False"

fun isNumber :: "jsval \<Rightarrow> bool" where
  "isNumber (Num n) = True"
| "isNumber v = False"

text \<open>Reading \<open>xs[i]\<close> from an array: \<open>undefined\<close> outside the array.\<close>

definition at_index :: "jsval list \<Rightarrow> int \<Rightarrow> jsval" where
  "at_index xs i = (if 0 \<le> i \<and> i < int (length xs) then xs ! nat i else Undefined)"

text \<open>
  \<open>jsonify v\<close> is what \<open>JSON.parse(JSON.stringify(v))\<close> gives for an array or an object \<open>v\<close>:
  \<open>undefined\<close> becomes \<open>null\<close> inside an array, and a property whose value is \<open>undefined\<close>
  is left out of an object.
\<close>

fun jsonify :: "jsval \<Rightarrow> jsval" where
  "jsonify (Arr xs) = Arr (map (\<lambda>x. if x = Undefined then Null else jsonify x) xs)"
| "jsonify (Obj fs) =
     Obj (map (\<lambda>(k, v). (k, jsonify v)) (filter (\<lambda>(k, v). v \<noteq> Undefined) fs))"
| "jsonify v = v"

text \<open>
  \<open>new Set(v)\<close>, as the list of its elements in insertion order. \<open>undefined\<close> and \<open>null\<close>
  give the empty set, an array its elements, a string its code points; a number, a boolean
  or a plain object is not iterable and throws. Primitive values are compared by value;
  arrays and objects are compared by identity, and the elements of a parsed array are all
  different objects, so they are never merged.
\<close>

fun isPrimitive :: "jsval \<Rightarrow> bool" where
  "isPrimitive (Arr xs) = False"
| "isPrimitive (Obj fs) = False"
| "isPrimitive v = True"

definition setAdd :: "jsval list \<Rightarrow> jsval \<Rightarrow> jsval list" where
  "setAdd s v = (if isPrimitive v \<and> v \<in> set s then s else s @ [v])"

fun codePoints :: "jsstring \<Rightarrow> jsstring list" where
  "codePoints [] = []"
| "codePoints [a] = [[a]]"
| "codePoints (a # b # cs) =
     (if 0xD800 \<le> a \<and> a \<le> 0xDBFF \<and> 0xDC00 \<le> b \<and> b \<le> 0xDFFF
      then [a, b] # codePoints cs
      else [a] # codePoints (b # cs))"

fun newSet :: "jsval \<Rightarrow> error + jsval list" where
  "newSet Undefined = Inr []"
| "newSet Null = Inr []"
| "newSet (Arr xs) = Inr (foldl setAdd [] xs)"
| "newSet (Str s) = Inr (foldl setAdd [] (map Str (codePoints s)))"
| "newSet v = Inl TypeError"

section \<open>The persisted key-value store\<close>

text \<open>
  \<open>localStorage\<close> maps keys to strings. The source reads a stored string only through
  \<open>JSON.parse\<close> and writes one only through \<open>JSON.stringify\<close>, so a stored string is
  represented by what \<open>JSON.parse\<close> makes of it: \<open>Unparsable\<close> when it throws a syntax
  error (the empty string is one of these), \<open>Parses v\<close> when it returns \<open>v\<close>.
\<close>

datatype payload = Unparsable | Parses jsval

type_synonym localStorage = "jsstring \<rightharpoonup> payload"

definition getStorageKey :: "jsstring \<Rightarrow> jsstring" where
  "getStorageKey bookId = str ''guess_game_progress_'' @ bookId"

definition saveProgress ::
  "localStorage \<Rightarrow> jsstring \<Rightarrow> jsval list \<Rightarrow> int \<Rightarrow> jsval list \<Rightarrow> int \<Rightarrow> localStorage" where
  "saveProgress store bookId playlist currentIndex originalIndices now =
     (let data = Obj [(str ''playlist'', Arr playlist),
                      (str ''currentIndex'', Num currentIndex),
                      (str ''originalIndices'', Arr originalIndices),
                      (str ''timestamp'', Num now)]
      in store(getStorageKey bookId \<mapsto> Parses (jsonify data)))"

text \<open>The body of the \<open>try\<close> block of \<open>loadProgress\<close>, after \<open>JSON.parse\<close> has returned.\<close>

definition validateProgress :: "jsval \<Rightarrow> error + jsval option" where
  "validateProgress data =
     (case getProp data (str ''playlist'') of
        Inl e \<Rightarrow> Inl e
      | Inr playlist \<Rightarrow>
          if \<not> truthy playlist \<or> \<not> isArray playlist then Inr None
          else (case getProp data (str ''currentIndex'') of
                  Inl e \<Rightarrow> Inl e
                | Inr currentIndex \<Rightarrow>
                    if \<not> isNumber currentIndex then Inr None else Inr (Some data)))"

text \<open>
  \<open>loadProgress\<close>: \<open>None\<close> is the source's \<open>null\<close>. A missing key and the empty string leave
  through \<open>if (!json) return null\<close>; a string that does not parse and an error thrown by
  the validation leave through the \<open>catch\<close> block.
\<close>

definition loadProgress :: "localStorage \<Rightarrow> jsstring \<Rightarrow> jsval option" where
  "loadProgress store bookId =
     (case store (getStorageKey bookId) of
        None \<Rightarrow> None
      | Some Unparsable \<Rightarrow> None
      | Some (Parses data) \<Rightarrow>
          (case validateProgress data of Inl e \<Rightarrow> None | Inr r \<Rightarrow> r))"

definition clearProgress :: "localStorage \<Rightarrow> jsstring \<Rightarrow> localStorage" where
  "clearProgress store bookId = store(getStorageKey bookId := None)"

section \<open>The shuffle\<close>

text \<open>
  \<open>rnd calls currentIndex\<close> is the number that \<open>Math.floor(Math.random() * currentIndex)\<close>
  gives at call number \<open>calls\<close> of \<open>Math.random()\<close>. The product and the floor are
  arithmetic of the platform on doubles and are not modelled: the source of indices is a
  parameter. \<open>Math.random()\<close> is below 1, which keeps the index below \<open>currentIndex\<close>
  (\<open>index_draws\<close>) and so inside the array. The loop counts \<open>currentIndex\<close> down to 0; the
  destructuring assignment first writes the old \<open>array[randomIndex]\<close> to
  \<open>array[currentIndex]\<close>, then the old \<open>array[currentIndex]\<close> to \<open>array[randomIndex]\<close>.
\<close>

primrec shuffle_loop :: "(nat \<Rightarrow> nat \<Rightarrow> nat) \<Rightarrow> nat \<Rightarrow> nat \<Rightarrow> 'a list \<Rightarrow> 'a list" where
  "shuffle_loop rnd calls 0 array = array"
| "shuffle_loop rnd calls (Suc k) array =
     (let randomIndex = rnd calls (Suc k) in
      shuffle_loop rnd (Suc calls) k
        (array[k := array ! randomIndex, randomIndex := array ! k]))"

definition shuffle :: "(nat \<Rightarrow> nat \<Rightarrow> nat) \<Rightarrow> 'a list \<Rightarrow> 'a list" where
  "shuffle rnd array = shuffle_loop rnd 0 (length array) array"

definition index_draws :: "(nat \<Rightarrow> nat \<Rightarrow> nat) \<Rightarrow> bool" where
  "index_draws rnd = (\<forall>calls currentIndex. 0 < currentIndex \<longrightarrow> rnd calls currentIndex < currentIndex)"

section \<open>The application state\<close>

record word_entry =
  w_term :: jsstring
  w_zhuyin :: jsstring

record book =
  book_id :: jsstring
  title :: jsstring
  words :: "word_entry list"

definition wordObj :: "word_entry \<Rightarrow> jsval" where
  "wordObj w = Obj [(str ''term'', Str (w_term w)), (str ''zhuyin'', Str (w_zhuyin w))]"

record game_state =
  active :: bool
  playlist :: "jsval list"
  currentIndex :: int

datatype screen = Home | Welcome | Game

record page =
  activeScreen :: screen
  wordDisplay :: jsval
  curIndexEl :: int
  totalCountEl :: nat
  resumeBtnShown :: bool

record app =
  activeBook :: "book option"
  selectedIndices :: "jsval list"
  game :: game_state
  storage :: localStorage
  alerts :: "jsstring list"
  ui :: page

text \<open>
  A call either returns or throws; the state at the throw is kept, since the mutations
  made before it stay.
\<close>

datatype outcome = Returned app | Threw error app

fun state_of :: "outcome \<Rightarrow> app" where
  "state_of (Returned s) = s"
| "state_of (Threw e s) = s"

definition andThen :: "outcome \<Rightarrow> (app \<Rightarrow> outcome) \<Rightarrow> outcome" where
  "andThen r f = (case r of Returned s \<Rightarrow> f s | Threw e s \<Rightarrow> Threw e s)"

definition initial_game :: game_state where
  "initial_game = \<lparr>active = False, playlist = [], currentIndex = -1\<rparr>"

definition navigateTo :: "screen \<Rightarrow> app \<Rightarrow> app" where
  "navigateTo screenName s = s\<lparr>ui := (ui s)\<lparr>activeScreen := screenName\<rparr>\<rparr>"

definition updateCardUI :: "app \<Rightarrow> outcome" where
  "updateCardUI s =
     (let w = at_index (playlist (game s)) (currentIndex (game s)) in
      case getProp w (str ''term'') of
        Inl e \<Rightarrow> Threw e s
      | Inr t \<Rightarrow> Returned (s\<lparr>ui := (ui s)\<lparr>wordDisplay := t,
                                           curIndexEl := currentIndex (game s) + 1\<rparr>\<rparr>))"

text \<open>
  \<open>renderTopicList\<close> only writes to the page, which is not modelled beyond the fields of
  \<open>page\<close>; it reads \<open>state.activeBook.words\<close> and throws without an active book.
\<close>

definition renderTopicList :: "app \<Rightarrow> outcome" where
  "renderTopicList s = (case activeBook s of None \<Rightarrow> Threw TypeError s | Some b \<Rightarrow> Returned s)"

definition updateWelcomeUI :: "jsstring \<Rightarrow> app \<Rightarrow> outcome" where
  "updateWelcomeUI bookId s =
     (let progress = loadProgress (storage s) bookId;
          restored =
            (case progress of
               None \<Rightarrow> Returned (s\<lparr>selectedIndices := []\<rparr>)
             | Some p \<Rightarrow>
                 (case getProp p (str ''originalIndices'') of
                    Inl e \<Rightarrow> Threw e s
                  | Inr oi \<Rightarrow>
                      if truthy oi
                      then (case newSet oi of
                              Inl e \<Rightarrow> Threw e s
                            | Inr sel \<Rightarrow> Returned (s\<lparr>selectedIndices := sel\<rparr>))
                      else Returned (s\<lparr>selectedIndices := []\<rparr>)))
      in andThen (andThen restored renderTopicList)
           (\<lambda>s'. Returned (s'\<lparr>ui := (ui s')\<lparr>resumeBtnShown := (progress \<noteq> None)\<rparr>\<rparr>)))"

section \<open>The game\<close>

text \<open>
  \<open>state.activeBook.words[idx]\<close> for an element of the selection. A number is an array
  index. Any other key is a property name, which this model does not resolve (it gives
  \<open>undefined\<close> here); every statement about a new game below is about a selection of
  numbers.
\<close>

fun wordAt :: "word_entry list \<Rightarrow> jsval \<Rightarrow> jsval" where
  "wordAt ws (Num i) = (if 0 \<le> i \<and> i < int (length ws) then wordObj (ws ! nat i) else Undefined)"
| "wordAt ws v = Undefined"

definition resume_notice :: jsstring where
  "resume_notice = [0x7121, 0x6CD5, 0x8B80, 0x53D6, 0x5B58, 0x6A94, 0xFF0C,
                    0x5C07, 0x958B, 0x59CB, 0x65B0, 0x904A, 0x6232, 0x3002]"

definition alert :: "jsstring \<Rightarrow> app \<Rightarrow> app" where
  "alert msg s = s\<lparr>alerts := alerts s @ [msg]\<rparr>"

text \<open>
  \<open>showGame\<close> is the end of \<open>startGame\<close>, under its comment \<open>UI Update\<close>: the total
  count, the change of screen and \<open>updateCardUI()\<close>. In resume mode \<open>loadProgress\<close> has
  checked that \<open>progress.playlist\<close> is an array and \<open>progress.currentIndex\<close> a number, so
  that the other branches of the two \<open>case\<close> expressions on them are never taken.
  \<open>persist\<close> further down is the call of \<open>StorageManager.saveProgress\<close> that
  \<open>nextQuestion\<close> and \<open>prevQuestion\<close> make; reading \<open>state.activeBook.id\<close> throws
  without an active book. Writing to \<open>localStorage\<close> is taken to succeed.
\<close>

definition showGame :: "app \<Rightarrow> outcome" where
  "showGame s =
     updateCardUI (navigateTo Game (s\<lparr>ui := (ui s)\<lparr>totalCountEl := length (playlist (game s))\<rparr>\<rparr>))"

function startGame :: "(nat \<Rightarrow> nat \<Rightarrow> nat) \<Rightarrow> int \<Rightarrow> bool \<Rightarrow> app \<Rightarrow> outcome" where
  "startGame rnd now isResume s =
     (let s1 = s\<lparr>game := (game s)\<lparr>active := True\<rparr>\<rparr> in
      if isResume then
        (case activeBook s1 of
           None \<Rightarrow> Threw TypeError s1
         | Some b \<Rightarrow>
             (case loadProgress (storage s1) (book_id b) of
                Some progress \<Rightarrow>
                  (case getProp progress (str ''playlist'') of
                     Inl e \<Rightarrow> Threw e s1
                   | Inr pl \<Rightarrow>
                       (let s2 = s1\<lparr>game := (game s1)\<lparr>playlist :=
                                       (case pl of Arr xs \<Rightarrow> xs | _ \<Rightarrow> [])\<rparr>\<rparr> in
                        case getProp progress (str ''currentIndex'') of
                          Inl e \<Rightarrow> Threw e s2
                        | Inr ci \<Rightarrow>
                            (let s3 = s2\<lparr>game := (game s2)\<lparr>currentIndex :=
                                            (case ci of Num c \<Rightarrow> c | _ \<Rightarrow> 0)\<rparr>\<rparr> in
                             case getProp progress (str ''originalIndices'') of
                               Inl e \<Rightarrow> Threw e s3
                             | Inr oi \<Rightarrow>
                                 (case newSet oi of
                                    Inl e \<Rightarrow> Threw e s3
                                  | Inr sel \<Rightarrow> showGame (s3\<lparr>selectedIndices := sel\<rparr>)))))
              | None \<Rightarrow> startGame rnd now False (alert resume_notice s1)))
      else
        if length (selectedIndices s1) = 0 then Returned s1
        else
          (case activeBook s1 of
             None \<Rightarrow> Threw TypeError s1
           | Some b \<Rightarrow>
               (let pool = map (wordAt (words b)) (selectedIndices s1);
                    s2 = s1\<lparr>game := (game s1)\<lparr>playlist := shuffle rnd pool\<rparr>\<rparr>;
                    s3 = s2\<lparr>game := (game s2)\<lparr>currentIndex := -1\<rparr>\<rparr>;
                    s4 = s3\<lparr>game := (game s3)\<lparr>currentIndex := 0\<rparr>\<rparr>;
                    s5 = s4\<lparr>storage := clearProgress (storage s4) (book_id b)\<rparr>;
                    s6 = s5\<lparr>storage := saveProgress (storage s5) (book_id b)
                                           (playlist (game s5)) 0 (selectedIndices s5) now\<rparr>
                in showGame s6)))"
  by pat_completeness auto
termination
  by (relation "measure (\<lambda>(rnd, now, isResume, s). if isResume then 1 else 0)") auto

declare startGame.simps [simp del]


definition persist :: "int \<Rightarrow> app \<Rightarrow> outcome" where
  "persist now s =
     (case activeBook s of
        None \<Rightarrow> Threw TypeError s
      | Some b \<Rightarrow>
          Returned (s\<lparr>storage := saveProgress (storage s) (book_id b) (playlist (game s))
                                   (currentIndex (game s)) (selectedIndices s) now\<rparr>))"

definition nextQuestion :: "int \<Rightarrow> app \<Rightarrow> outcome" where
  "nextQuestion now s =
     (if currentIndex (game s) < int (length (playlist (game s))) - 1
      then andThen (updateCardUI (s\<lparr>game := (game s)\<lparr>currentIndex := currentIndex (game s) + 1\<rparr>\<rparr>))
             (persist now)
      else Returned s)"

definition prevQuestion :: "int \<Rightarrow> app \<Rightarrow> outcome" where
  "prevQuestion now s =
     (if currentIndex (game s) > 0
      then andThen (updateCardUI (s\<lparr>game := (game s)\<lparr>currentIndex := currentIndex (game s) - 1\<rparr>\<rparr>))
             (persist now)
      else Returned s)"

section \<open>The swipe gesture\<close>

text \<open>
  The three handlers of \<open>initSwipeAttributes\<close> share \<open>startX\<close>, \<open>currentX\<close> and
  \<open>isDragging\<close>, which start as 0, 0 and false. Coordinates are doubles, which are real
  numbers. \<open>currentX - startX\<close> is a subtraction of doubles: its result is the exact
  difference rounded to a double, and the rounding \<open>fl\<close> is a parameter; \<open>Math.abs\<close> and
  the comparisons are exact. \<open>onStart\<close> sets \<open>startX\<close> and leaves \<open>currentX\<close> as the last
  move of an earlier gesture left it. \<open>onEnd\<close> chooses between \<open>resetCardPosition()\<close>,
  \<open>animateSwipeAndAction("right", nextQuestion)\<close> and
  \<open>animateSwipeAndAction("left", prevQuestion)\<close>; it chooses nothing when no drag is going on.
\<close>

record swipe =
  startX :: real
  currentX :: real
  isDragging :: bool

datatype command = ResetCard | SwipeRightNext | SwipeLeftPrev

definition threshold :: real where
  "threshold = 100"

definition onStart :: "real \<Rightarrow> game_state \<Rightarrow> swipe \<Rightarrow> swipe" where
  "onStart clientX g w = (if \<not> active g then w else w\<lparr>isDragging := True, startX := clientX\<rparr>)"

definition onMove :: "real \<Rightarrow> swipe \<Rightarrow> swipe" where
  "onMove clientX w = (if \<not> isDragging w then w else w\<lparr>currentX := clientX\<rparr>)"

definition onEnd :: "(real \<Rightarrow> real) \<Rightarrow> game_state \<Rightarrow> swipe \<Rightarrow> swipe \<times> command option" where
  "onEnd fl g w =
     (if \<not> isDragging w then (w, None)
      else
        (let w' = w\<lparr>isDragging := False\<rparr>;
             dx = fl (currentX w' - startX w')
         in (w',
             Some (if \<bar>dx\<bar> > threshold then
                     (if dx > 0 then
                        (if currentIndex g < int (length (playlist g)) - 1
                         then SwipeRightNext else ResetCard)
                      else
                        (if currentIndex g > 0 then SwipeLeftPrev else ResetCard))
                   else ResetCard))))"

text \<open>
  A released gesture: a press at \<open>x0\<close>, the moves in their order (there may be none), the
  release.
\<close>

definition gesture ::
  "(real \<Rightarrow> real) \<Rightarrow> real \<Rightarrow> real list \<Rightarrow> game_state \<Rightarrow> swipe \<Rightarrow> swipe \<times> command option" where
  "gesture fl x0 moves g w = onEnd fl g (foldl (\<lambda>w' x. onMove x w') (onStart x0 g w) moves)"

section \<open>The word source\<close>

text \<open>
  \<open>trim\<close> removes white space and line terminators at both ends. \<open>toLowerCase\<close> is modelled
  on the letters A to Z; no other character is mapped to a letter of the tokens that
  \<open>parse\<close> compares with.
\<close>

definition isWhiteSpace :: "16 word \<Rightarrow> bool" where
  "isWhiteSpace c =
     (c = 0x09 \<or> c = 0x0A \<or> c = 0x0B \<or> c = 0x0C \<or> c = 0x0D \<or> c = 0x20 \<or> c = 0xA0 \<or>
      c = 0x1680 \<or> (0x2000 \<le> c \<and> c \<le> 0x200A) \<or> c = 0x2028 \<or> c = 0x2029 \<or>
      c = 0x202F \<or> c = 0x205F \<or> c = 0x3000 \<or> c = 0xFEFF)"

definition trim :: "jsstring \<Rightarrow> jsstring" where
  "trim s = rev (dropWhile isWhiteSpace (rev (dropWhile isWhiteSpace s)))"

definition toLowerCase :: "jsstring \<Rightarrow> jsstring" where
  "toLowerCase s = map (\<lambda>c. if 0x41 \<le> c \<and> c \<le> 0x5A then c + 0x20 else c) s"

fun includes_str :: "jsstring \<Rightarrow> jsstring \<Rightarrow> bool" where
  "includes_str [] needle = (needle = [])"
| "includes_str (c # cs) needle =
     (take (length needle) (c # cs) = needle \<or> includes_str cs needle)"

text \<open>\<open>csvText.split(/\r?\n/)\<close>: a line feed, with a carriage return before it if there is one, ends a line.\<close>

fun splitLines :: "jsstring \<Rightarrow> jsstring list" where
  "splitLines [] = [[]]"
| "splitLines [c] = (if c = 0x0A then [[], []] else [[c]])"
| "splitLines (c # d # cs) =
     (if c = 0x0A then [] # splitLines (d # cs)
      else if c = 0x0D \<and> d = 0x0A then [] # splitLines cs
      else (case splitLines (d # cs) of
              [] \<Rightarrow> [[c]]
            | l # ls \<Rightarrow> (c # l) # ls))"

text \<open>\<open>line.split(",")\<close>.\<close>

fun splitComma :: "jsstring \<Rightarrow> jsstring list" where
  "splitComma [] = [[]]"
| "splitComma (c # cs) =
     (if c = 0x2C then [] # splitComma cs
      else (case splitComma cs of
              [] \<Rightarrow> [[c]]
            | l # ls \<Rightarrow> (c # l) # ls))"

record parsed =
  p_words :: "word_entry list"
  p_title :: "jsstring option"

definition isHeader :: "jsstring \<Rightarrow> bool" where
  "isHeader lower =
     (\<not> (lower \<noteq> str ''term'' \<and> lower \<noteq> str ''word'' \<and>
         \<not> includes_str lower [0x984C, 0x76EE] \<and> \<not> includes_str lower (str ''content'')))"

text \<open>
  The callback of \<open>lines.forEach\<close>. \<open>parts[0]\<close> and \<open>parts[1]\<close> are \<open>undefined\<close> when the
  array is too short: then \<open>term\<close> is \<open>undefined\<close> (falsy) and \<open>zhuyin\<close> is the empty string.
\<close>

definition parseLine :: "jsstring \<Rightarrow> nat \<Rightarrow> parsed \<Rightarrow> parsed" where
  "parseLine line index acc =
     (let parts = splitComma line;
          term0 = (case parts of [] \<Rightarrow> None | p0 # ps \<Rightarrow> Some (trim p0));
          zhuyin = (case parts of p0 # p1 # ps \<Rightarrow> trim p1 | _ \<Rightarrow> [])
      in case term0 of
           None \<Rightarrow> acc
         | Some term0 \<Rightarrow>
             if term0 = [] then acc
             else if index = 0 then
               (if \<not> isHeader (toLowerCase term0) then acc\<lparr>p_title := Some term0\<rparr> else acc)
             else acc\<lparr>p_words := p_words acc @ [\<lparr>w_term = term0, w_zhuyin = zhuyin\<rparr>]\<rparr>)"

fun forEachLine :: "jsstring list \<Rightarrow> nat \<Rightarrow> parsed \<Rightarrow> parsed" where
  "forEachLine [] index acc = acc"
| "forEachLine (line # rest) index acc = forEachLine rest (Suc index) (parseLine line index acc)"

definition parse :: "jsstring \<Rightarrow> parsed" where
  "parse csvText =
     (let lines = filter (\<lambda>line. trim line \<noteq> []) (splitLines csvText)
      in forEachLine lines 0 \<lparr>p_words = [], p_title = None\<rparr>)"

section \<open>Notions used in the statements\<close>

text \<open>
  \<open>isJson v\<close>: \<open>v\<close> is a value that \<open>JSON.parse\<close> can return, one with no \<open>undefined\<close>
  inside. \<open>card_values\<close>: every entry of a playlist is such a value and not \<open>null\<close>, so
  that its \<open>term\<close> can be read. \<open>progress_record\<close> is the value that \<open>loadProgress\<close> reads
  back after \<open>saveProgress\<close>. \<open>in_sync s bookId\<close>: \<open>loadProgress\<close> for the book returns a
  record whose \<open>currentIndex\<close> and \<open>playlist\<close> are those of the game in memory.
  \<open>valid_selection b sel is\<close>: the selection is the non-empty set of the distinct
  numbers \<open>is\<close>, each an index into the words of \<open>b\<close>.
\<close>

fun isJson :: "jsval \<Rightarrow> bool" where
  "isJson Undefined = False"
| "isJson (Arr xs) = (\<forall>x \<in> set xs. isJson x)"
| "isJson (Obj fs) = (\<forall>kv \<in> set fs. isJson (snd kv))"
| "isJson v = True"

definition in_sync :: "app \<Rightarrow> jsstring \<Rightarrow> bool" where
  "in_sync s bookId =
     (case loadProgress (storage s) bookId of
        None \<Rightarrow> False
      | Some d \<Rightarrow>
          getProp d (str ''currentIndex'') = Inr (Num (currentIndex (game s))) \<and>
          getProp d (str ''playlist'') = Inr (Arr (playlist (game s))))"

definition progress_record :: "jsval list \<Rightarrow> int \<Rightarrow> jsval list \<Rightarrow> int \<Rightarrow> jsval" where
  "progress_record pl c sel now =
     Obj [(str ''playlist'', jsonify (Arr pl)), (str ''currentIndex'', Num c),
          (str ''originalIndices'', jsonify (Arr sel)), (str ''timestamp'', Num now)]"

definition valid_selection :: "book \<Rightarrow> jsval list \<Rightarrow> int list \<Rightarrow> bool" where
  "valid_selection b sel is =
     (sel = map Num is \<and> is \<noteq> [] \<and> distinct is \<and>
      (\<forall>i \<in> set is. 0 \<le> i \<and> i < int (length (words b))))"

definition card_values :: "jsval list \<Rightarrow> bool" where
  "card_values pl = (\<forall>v \<in> set pl. isJson v \<and> v \<noteq> Null)"

text \<open>
  The Fisher-Yates shuffle as the specification words it: for \<open>i\<close> from \<open>length - 1\<close> down
  to 1, swap element \<open>i\<close> with the element at the index \<open>pick i\<close> chosen from \<open>[0, i]\<close>.
  \<open>drawn_indices rnd n i\<close> is the index that the source computes for position \<open>i\<close> of an
  array of length \<open>n\<close>: its draw is the call number \<open>n - 1 - i\<close>. A vector of choices
  gives for every position \<open>i\<close> an index in \<open>[0, i]\<close>.
\<close>

primrec fisher_yates_from :: "(nat \<Rightarrow> nat) \<Rightarrow> nat \<Rightarrow> 'a list \<Rightarrow> 'a list" where
  "fisher_yates_from pick 0 xs = xs"
| "fisher_yates_from pick (Suc i) xs =
     fisher_yates_from pick i (xs[Suc i := xs ! pick (Suc i), pick (Suc i) := xs ! Suc i])"

definition fisher_yates :: "(nat \<Rightarrow> nat) \<Rightarrow> 'a list \<Rightarrow> 'a list" where
  "fisher_yates pick xs = fisher_yates_from pick (length xs - 1) xs"

definition drawn_indices :: "(nat \<Rightarrow> nat \<Rightarrow> nat) \<Rightarrow> nat \<Rightarrow> nat \<Rightarrow> nat" where
  "drawn_indices rnd n i = rnd (n - 1 - i) (Suc i)"

definition choice_vectors :: "nat \<Rightarrow> nat list set" where
  "choice_vectors n = {js. length js = n \<and> (\<forall>i<n. js ! i \<le> i)}"

text \<open>
  The word source as the specification words it: the fields of a line are its parts
  between commas, trimmed; a row gives a word unless its first field is empty; a header
  token is \<open>term\<close> or \<open>word\<close> in any case, or a field that contains \<open>content\<close> in any case
  or the two characters of the title token.
\<close>

definition first_field :: "jsstring \<Rightarrow> jsstring" where
  "first_field line = trim (hd (splitComma line))"

definition second_field :: "jsstring \<Rightarrow> jsstring" where
  "second_field line = (case splitComma line of p0 # p1 # ps \<Rightarrow> trim p1 | _ \<Rightarrow> [])"

definition row_word :: "jsstring \<Rightarrow> word_entry option" where
  "row_word line =
     (if first_field line = [] then None
      else Some \<lparr>w_term = first_field line, w_zhuyin = second_field line\<rparr>)"

definition header_token :: "jsstring \<Rightarrow> bool" where
  "header_token field =
     (toLowerCase field = str ''term'' \<or> toLowerCase field = str ''word'' \<or>
      includes_str (toLowerCase field) [0x984C, 0x76EE] \<or>
      includes_str (toLowerCase field) (str ''content''))"

definition nonblank_lines :: "jsstring \<Rightarrow> jsstring list" where
  "nonblank_lines csvText = filter (\<lambda>line. trim line \<noteq> []) (splitLines csvText)"

section \<open>Example states\<close>

text \<open>
  A book of three words, opened on the selection screen with nothing stored
  (\<open>opened_app\<close>); the same with the first and the third word selected (\<open>selected_app\<close>);
  a session on these two words as a new game leaves it when every drawn index is 0
  (\<open>playing_app\<close>); that session with nothing selected (\<open>deselected_app\<close>); and the
  opened book with the second word selected and a stored record whose \<open>currentIndex\<close>
  and \<open>originalIndices\<close> are given (\<open>tampered_app\<close>).
\<close>

definition zero_draws :: "nat \<Rightarrow> nat \<Rightarrow> nat" where
  "zero_draws calls k = 0"

definition cat :: word_entry where
  "cat = \<lparr>w_term = str ''cat'', w_zhuyin = str ''a''\<rparr>"

definition dog :: word_entry where
  "dog = \<lparr>w_term = str ''dog'', w_zhuyin = []\<rparr>"

definition owl :: word_entry where
  "owl = \<lparr>w_term = str ''owl'', w_zhuyin = str ''c''\<rparr>"

definition demo_words :: "word_entry list" where
  "demo_words = [cat, dog, owl]"

definition demo_book :: book where
  "demo_book = \<lparr>book_id = str ''b1'', title = str ''Animals'', words = demo_words\<rparr>"

definition demo_page :: page where
  "demo_page = \<lparr>activeScreen = Welcome, wordDisplay = Str [], curIndexEl = 0,
                 totalCountEl = 0, resumeBtnShown = False\<rparr>"

definition opened_app :: app where
  "opened_app = \<lparr>activeBook = Some demo_book, selectedIndices = [], game = initial_game,
                  storage = Map.empty, alerts = [], ui = demo_page\<rparr>"

definition selected_app :: app where
  "selected_app = opened_app\<lparr>selectedIndices := [Num 0, Num 2]\<rparr>"

definition playing_app :: app where
  "playing_app = opened_app
     \<lparr>selectedIndices := [Num 0, Num 2],
      game := \<lparr>active = True, playlist = [wordObj owl, wordObj cat], currentIndex = 0\<rparr>,
      storage := saveProgress Map.empty (str ''b1'') [wordObj owl, wordObj cat] 0
                   [Num 0, Num 2] 0\<rparr>"


definition tampered_record :: "jsval \<Rightarrow> jsval \<Rightarrow> jsval" where
  "tampered_record c oi =
     Obj [(str ''playlist'', Arr [wordObj cat]), (str ''currentIndex'', c),
          (str ''originalIndices'', oi)]"

definition tampered_app :: "jsval \<Rightarrow> jsval \<Rightarrow> app" where
  "tampered_app c oi = opened_app
     \<lparr>selectedIndices := [Num 1],
      storage := [getStorageKey (str ''b1'') \<mapsto> Parses (tampered_record c oi)]\<rparr>"

text \<open>
  The book opened while the store holds a record with \<open>currentIndex\<close> 0 and
  \<open>originalIndices\<close> 0: what \<open>updateWelcomeUI\<close> leaves.
\<close>

definition resume_offered_app :: app where
  "resume_offered_app = state_of (updateWelcomeUI (str ''b1'') (tampered_app (Num 0) (Num 0)))"

definition idle_swipe :: swipe where
  "idle_swipe = \<lparr>startX = 0, currentX = 0, isDragging = False\<rparr>"

text \<open>
  The state of a run: a new game on the two selected words, then one advance. The
  rounding that changes nothing serves where a rounding has to be named.
\<close>

definition second_card_app :: app where
  "second_card_app = state_of (nextQuestion 0 (state_of (startGame zero_draws 0 False selected_app)))"

definition no_rounding :: "real \<Rightarrow> real" where
  "no_rounding x = x"

text \<open>Two texts of the word source: one that starts with a title, one that starts with a header.\<close>

definition sample_csv :: jsstring where
  "sample_csv = str ''Animals,x'' @ [0x0D, 0x0A] @ str '' cat , a ,z'' @ [0x0A, 0x0A] @
                str ''dog'' @ [0x0A] @ str '' ,b'' @ [0x0A] @ str ''word,w''"

definition header_csv :: jsstring where
  "header_csv = str ''Term,Zhuyin'' @ [0x0A] @ str ''cat,a''"

section \<open>Properties of the progress store\<close>

lemma validateProgress_Some_iff:
  "validateProgress d = Inr (Some d') \<longleftrightarrow>
     d' = d \<and> (\<exists>xs. getProp d (str ''playlist'') = Inr (Arr xs)) \<and>
     (\<exists>c. getProp d (str ''currentIndex'') = Inr (Num c))"
proof (cases "getProp d (str ''playlist'')")
  case (Inl e)
  then show ?thesis by (simp add: validateProgress_def)
next
  case (Inr p)
  note p = this
  show ?thesis
  proof (cases "getProp d (str ''currentIndex'')")
    case (Inl e)
    then show ?thesis using p by (cases p) (auto simp: validateProgress_def)
  next
    case (Inr c)
    then show ?thesis using p by (cases p; cases c) (auto simp: validateProgress_def)
  qed
qed

lemma loadProgress_Some_iff:
  "loadProgress store bookId = Some d \<longleftrightarrow>
     store (getStorageKey bookId) = Some (Parses d) \<and>
     (\<exists>xs. getProp d (str ''playlist'') = Inr (Arr xs)) \<and>
     (\<exists>c. getProp d (str ''currentIndex'') = Inr (Num c))"
proof (cases "store (getStorageKey bookId)")
  case None
  then show ?thesis by (simp add: loadProgress_def)
next
  case (Some p)
  show ?thesis
  proof (cases p)
    case Unparsable
    then show ?thesis using Some by (simp add: loadProgress_def)
  next
    case (Parses data)
    have "loadProgress store bookId = Some d \<longleftrightarrow> validateProgress data = Inr (Some d)"
      using Some Parses by (simp add: loadProgress_def split: sum.splits)
    then show ?thesis
      using Some Parses validateProgress_Some_iff[of data d] by auto
  qed
qed

text \<open>
  Claim C7. \<open>loadProgress\<close> returns a record exactly when the string stored under the
  book's key parses, the \<open>playlist\<close> property of the parsed value is an array and its
  \<open>currentIndex\<close> property is a number; the record it returns is the parsed value. In every
  other case (no such key, a string that does not parse, a parsed value without an array
  \<open>playlist\<close> or without a numeric \<open>currentIndex\<close>, \<open>null\<close> included) it returns \<open>null\<close>.
  It never throws: the result is a value in all cases.
\<close>

theorem loadProgress_returns_exactly_valid_records:
  "(loadProgress store bookId = Some d \<longleftrightarrow>
      store (getStorageKey bookId) = Some (Parses d) \<and>
      (\<exists>xs. getProp d (str ''playlist'') = Inr (Arr xs)) \<and>
      (\<exists>c. getProp d (str ''currentIndex'') = Inr (Num c))) \<and>
   (loadProgress store bookId = None \<longleftrightarrow>
      \<not> (\<exists>d'. store (getStorageKey bookId) = Some (Parses d') \<and>
             (\<exists>xs. getProp d' (str ''playlist'') = Inr (Arr xs)) \<and>
             (\<exists>c. getProp d' (str ''currentIndex'') = Inr (Num c))))"
proof -
  have "loadProgress store bookId = None \<longleftrightarrow> (\<forall>d'. loadProgress store bookId \<noteq> Some d')"
    by (cases "loadProgress store bookId") auto
  then show ?thesis
    by (simp add: loadProgress_Some_iff)
qed

theorem loadProgress_returns_exactly_valid_records_witness:
  "loadProgress [getStorageKey (str ''b1'') \<mapsto>
                   Parses (Obj [(str ''playlist'', Arr []), (str ''currentIndex'', Num 0)])]
     (str ''b1'')
   = Some (Obj [(str ''playlist'', Arr []), (str ''currentIndex'', Num 0)]) \<and>
   loadProgress [getStorageKey (str ''b1'') \<mapsto> Parses Null] (str ''b1'') = None \<and>
   loadProgress [getStorageKey (str ''b1'') \<mapsto> Unparsable] (str ''b1'') = None \<and>
   loadProgress Map.empty (str ''b1'') = None \<and>
   loadProgress [getStorageKey (str ''b1'') \<mapsto>
                   Parses (Obj [(str ''playlist'', Arr []), (str ''currentIndex'', Str (str ''0''))])]
     (str ''b1'') = None"
proof -
  let ?ok = "Obj [(str ''playlist'', Arr []), (str ''currentIndex'', Num 0)]"
  let ?bad = "Obj [(str ''playlist'', Arr []), (str ''currentIndex'', Str (str ''0''))]"
  have "loadProgress [getStorageKey (str ''b1'') \<mapsto> Parses ?ok] (str ''b1'') = Some ?ok"
    using loadProgress_returns_exactly_valid_records
            [of "[getStorageKey (str ''b1'') \<mapsto> Parses ?ok]" "str ''b1''" ?ok]
    by (simp add: str_def)
  moreover have "loadProgress [getStorageKey (str ''b1'') \<mapsto> Parses Null] (str ''b1'') = None"
    using loadProgress_returns_exactly_valid_records
            [of "[getStorageKey (str ''b1'') \<mapsto> Parses Null]" "str ''b1''" Null]
    by simp
  moreover have "loadProgress [getStorageKey (str ''b1'') \<mapsto> Unparsable] (str ''b1'') = None"
    using loadProgress_returns_exactly_valid_records
            [of "[getStorageKey (str ''b1'') \<mapsto> Unparsable]" "str ''b1''" Null]
    by simp
  moreover have "loadProgress Map.empty (str ''b1'') = None"
    using loadProgress_returns_exactly_valid_records [of Map.empty "str ''b1''" Null]
    by simp
  moreover have "loadProgress [getStorageKey (str ''b1'') \<mapsto> Parses ?bad] (str ''b1'') = None"
    using loadProgress_returns_exactly_valid_records
            [of "[getStorageKey (str ''b1'') \<mapsto> Parses ?bad]" "str ''b1''" ?bad]
    by (simp add: str_def)
  ultimately show ?thesis by blast
qed

section \<open>The shuffle keeps the elements\<close>

lemma length_shuffle_loop: "length (shuffle_loop rnd c k xs) = length xs"
  by (induction k arbitrary: c xs) (simp_all add: Let_def)

lemma mset_shuffle_loop:
  "index_draws rnd \<Longrightarrow> k \<le> length xs \<Longrightarrow> mset (shuffle_loop rnd c k xs) = mset xs"
proof (induction k arbitrary: c xs)
  case 0
  then show ?case by simp
next
  case (Suc k)
  let ?j = "rnd c (Suc k)"
  have j: "?j < Suc k"
    using Suc.prems(1) by (simp add: index_draws_def)
  have "mset (xs[k := xs ! ?j, ?j := xs ! k]) = mset xs"
    using j Suc.prems(2) by (simp add: mset_swap)
  moreover have "mset (shuffle_loop rnd (Suc c) k (xs[k := xs ! ?j, ?j := xs ! k]))
                 = mset (xs[k := xs ! ?j, ?j := xs ! k])"
    using Suc.prems by (intro Suc.IH) simp_all
  ultimately show ?case by (simp add: Let_def)
qed

lemma mset_shuffle: "index_draws rnd \<Longrightarrow> mset (shuffle rnd xs) = mset xs"
  by (simp add: shuffle_def mset_shuffle_loop)

lemma length_shuffle: "length (shuffle rnd xs) = length xs"
  by (simp add: shuffle_def length_shuffle_loop)

lemma jsonify_isJson: "isJson v \<Longrightarrow> jsonify v = v"
proof (induction v rule: jsonify.induct)
  case (1 xs)
  have c: "map (\<lambda>x. if x = Undefined then Null else jsonify x) xs = map (\<lambda>x. x) xs"
  proof (rule map_cong[OF refl])
    fix x assume x: "x \<in> set xs"
    then have "isJson x" using 1(2) by simp
    then have "x \<noteq> Undefined" by auto
    then show "(if x = Undefined then Null else jsonify x) = x"
      using 1(1)[OF x] \<open>isJson x\<close> by simp
  qed
  have "jsonify (Arr xs) = Arr (map (\<lambda>x. if x = Undefined then Null else jsonify x) xs)"
    by (rule jsonify.simps)
  also have "\<dots> = Arr (map (\<lambda>x. x) xs)"
    by (simp only: c)
  finally show ?case by simp
next
  case (2 fs)
  have a: "filter (\<lambda>(k, v). v \<noteq> Undefined) fs = fs"
    using 2(2) by (auto simp: filter_id_conv)
  have b: "map (\<lambda>(k, v). (k, jsonify v)) fs = map (\<lambda>x. x) fs"
  proof (rule map_cong[OF refl])
    fix x assume x: "x \<in> set fs"
    obtain k v where kv: "x = (k, v)" by (cases x)
    have "isJson v" using 2(2) x kv by auto
    then have "v \<noteq> Undefined" by auto
    have "(k, v) \<in> set (filter (\<lambda>(k, v). v \<noteq> Undefined) fs)"
      using x kv \<open>v \<noteq> Undefined\<close> by simp
    then have "jsonify v = v"
      using "2.IH"[of "(k, v)" k v] \<open>isJson v\<close> by blast
    then show "(case x of (k, v) \<Rightarrow> (k, jsonify v)) = x" using kv by simp
  qed
  have "jsonify (Obj fs) = Obj (map (\<lambda>(k, v). (k, jsonify v)) (filter (\<lambda>(k, v). v \<noteq> Undefined) fs))"
    by (rule jsonify.simps)
  also have "\<dots> = Obj (map (\<lambda>x. x) fs)"
    by (simp only: a b)
  finally show ?case by simp
qed simp_all

section \<open>Saving and loading\<close>

lemma saveProgress_eq:
  "saveProgress store bookId pl c sel now
     = store(getStorageKey bookId \<mapsto> Parses (progress_record pl c sel now))"
  by (simp add: saveProgress_def progress_record_def)

lemma getProp_progress_record:
  "getProp (progress_record pl c sel now) (str ''playlist'') = Inr (jsonify (Arr pl))"
  "getProp (progress_record pl c sel now) (str ''currentIndex'') = Inr (Num c)"
  "getProp (progress_record pl c sel now) (str ''originalIndices'') = Inr (jsonify (Arr sel))"
  by (simp_all add: progress_record_def str_def)

lemma loadProgress_saveProgress:
  "loadProgress (saveProgress store bookId pl c sel now) bookId
     = Some (progress_record pl c sel now)"
  by (simp add: loadProgress_Some_iff saveProgress_eq getProp_progress_record)

lemma jsonify_Arr_isJson: "\<forall>v \<in> set pl. isJson v \<Longrightarrow> jsonify (Arr pl) = Arr pl"
  by (rule jsonify_isJson) simp

lemma in_sync_saved:
  assumes "\<forall>v \<in> set (playlist (game s)). isJson v"
  shows "in_sync (s\<lparr>storage := saveProgress (storage s) bookId (playlist (game s))
                                  (currentIndex (game s)) sel now\<rparr>) bookId"
  using assms
  by (simp add: in_sync_def loadProgress_saveProgress getProp_progress_record jsonify_Arr_isJson
           del: jsonify.simps)


lemma updateCardUI_Returned:
  assumes "0 \<le> currentIndex (game s)" "currentIndex (game s) < int (length (playlist (game s)))"
    and "\<forall>v \<in> set (playlist (game s)). isJson v \<and> v \<noteq> Null"
  shows "\<exists>t. updateCardUI s = Returned (s\<lparr>ui := (ui s)\<lparr>wordDisplay := t,
                       curIndexEl := currentIndex (game s) + 1\<rparr>\<rparr>)"
proof -
  let ?w = "at_index (playlist (game s)) (currentIndex (game s))"
  have "?w \<in> set (playlist (game s))"
    using assms(1,2) by (simp add: at_index_def)
  then have "isJson ?w" "?w \<noteq> Null" using assms(3) by auto
  then obtain t where "getProp ?w (str ''term'') = Inr t"
    by (cases ?w) auto
  then show ?thesis by (auto simp: updateCardUI_def Let_def)
qed

section \<open>The transitions of the game\<close>

lemma startGame_new:
  "startGame rnd now False s =
     (let s1 = s\<lparr>game := (game s)\<lparr>active := True\<rparr>\<rparr> in
      if selectedIndices s = [] then Returned s1
      else
        (case activeBook s of
           None \<Rightarrow> Threw TypeError s1
         | Some b \<Rightarrow>
             showGame (s1\<lparr>game := (game s1)\<lparr>playlist :=
                                  shuffle rnd (map (wordAt (words b)) (selectedIndices s)),
                                currentIndex := 0\<rparr>,
                          storage := saveProgress (clearProgress (storage s) (book_id b)) (book_id b)
                             (shuffle rnd (map (wordAt (words b)) (selectedIndices s))) 0
                             (selectedIndices s) now\<rparr>)))"
  by (subst startGame.simps) (simp add: Let_def split: option.splits)

lemma startGame_resume_none:
  "activeBook s = Some b \<Longrightarrow> loadProgress (storage s) (book_id b) = None \<Longrightarrow>
   startGame rnd now True s
     = startGame rnd now False (alert resume_notice (s\<lparr>game := (game s)\<lparr>active := True\<rparr>\<rparr>))"
  by (subst startGame.simps) (simp add: Let_def)

lemma startGame_resume_some:
  assumes "activeBook s = Some b" "loadProgress (storage s) (book_id b) = Some p"
    and "getProp p (str ''playlist'') = Inr (Arr xs)"
    and "getProp p (str ''currentIndex'') = Inr (Num c)"
    and "getProp p (str ''originalIndices'') = Inr oi"
  shows "startGame rnd now True s =
     (let s3 = s\<lparr>game := (game s)\<lparr>active := True, playlist := xs, currentIndex := c\<rparr>\<rparr> in
      case newSet oi of
        Inl e \<Rightarrow> Threw e s3
      | Inr sel \<Rightarrow> showGame (s3\<lparr>selectedIndices := sel\<rparr>))"
  using assms by (subst startGame.simps) (simp add: Let_def split: sum.splits)

lemma state_of_updateCardUI:
  "game (state_of (updateCardUI s)) = game s"
  "storage (state_of (updateCardUI s)) = storage s"
  "selectedIndices (state_of (updateCardUI s)) = selectedIndices s"
  "activeBook (state_of (updateCardUI s)) = activeBook s"
  "alerts (state_of (updateCardUI s)) = alerts s"
  by (simp_all add: updateCardUI_def Let_def split: sum.splits)

lemma state_of_showGame:
  "game (state_of (showGame s)) = game s"
  "storage (state_of (showGame s)) = storage s"
  "selectedIndices (state_of (showGame s)) = selectedIndices s"
  "activeBook (state_of (showGame s)) = activeBook s"
  "alerts (state_of (showGame s)) = alerts s"
  by (simp_all add: showGame_def state_of_updateCardUI navigateTo_def)



lemma in_sync_frame:
  "storage s' = storage s \<Longrightarrow> game s' = game s \<Longrightarrow> in_sync s' k = in_sync s k"
  by (simp add: in_sync_def split: option.splits)

lemma newSet_Arr: "\<exists>sel. newSet (jsonify (Arr xs)) = Inr sel"
  by simp



lemma pool_of_valid_selection:
  "\<forall>i \<in> set is. 0 \<le> i \<and> i < int (length ws) \<Longrightarrow>
   map (wordAt ws) (map Num is) = map (\<lambda>i. wordObj (ws ! nat i)) is"
  by (induction "is") simp_all

lemma wordObj_card: "isJson (wordObj w) \<and> wordObj w \<noteq> Null"
  by (simp add: wordObj_def)

lemma card_values_shuffled_pool:
  assumes "index_draws rnd"
  shows "card_values (shuffle rnd (map (\<lambda>i. wordObj (ws ! nat i)) is))"
proof -
  have "set (shuffle rnd (map (\<lambda>i. wordObj (ws ! nat i)) is))
          = set (map (\<lambda>i. wordObj (ws ! nat i)) is)"
    using mset_shuffle[OF assms] by (metis set_mset_mset)
  then show ?thesis
    by (auto simp: card_values_def wordObj_card)
qed

lemma showGame_Returned:
  assumes "0 \<le> currentIndex (game s)" "currentIndex (game s) < int (length (playlist (game s)))"
    and "card_values (playlist (game s))"
  shows "\<exists>u. showGame s = Returned (s\<lparr>ui := u\<rparr>) \<and> activeScreen u = Game"
proof -
  let ?s1 = "navigateTo Game (s\<lparr>ui := (ui s)\<lparr>totalCountEl := length (playlist (game s))\<rparr>\<rparr>)"
  obtain t where "updateCardUI ?s1 = Returned (?s1\<lparr>ui := (ui ?s1)\<lparr>wordDisplay := t,
                       curIndexEl := currentIndex (game ?s1) + 1\<rparr>\<rparr>)"
    using updateCardUI_Returned[of ?s1] assms by (auto simp: navigateTo_def card_values_def)
  then show ?thesis
    by (auto simp: showGame_def navigateTo_def)
qed

lemma startGame_new_valid:
  assumes book: "activeBook s = Some b"
    and sel: "valid_selection b (selectedIndices s) is"
    and draws: "index_draws rnd"
  shows "\<exists>s'. startGame rnd now False s = Returned s' \<and>
           mset (playlist (game s')) = mset (map (\<lambda>i. wordObj (words b ! nat i)) is) \<and>
           length (playlist (game s')) = length is \<and>
           currentIndex (game s') = 0 \<and> active (game s') \<and>
           activeScreen (ui s') = Game \<and> alerts s' = alerts s \<and>
           in_sync s' (book_id b)"
proof -
  let ?pool = "map (\<lambda>i. wordObj (words b ! nat i)) is"
  let ?pl = "shuffle rnd ?pool"
  have pool: "map (wordAt (words b)) (selectedIndices s) = ?pool"
    using sel by (simp add: valid_selection_def pool_of_valid_selection)
  have ne: "selectedIndices s \<noteq> []" "is \<noteq> []"
    using sel by (auto simp: valid_selection_def)
  let ?s1 = "s\<lparr>game := (game s)\<lparr>active := True\<rparr>\<rparr>"
  let ?s5 = "?s1\<lparr>game := (game ?s1)\<lparr>playlist := ?pl, currentIndex := 0\<rparr>\<rparr>"
  let ?s6 = "?s5\<lparr>storage := saveProgress (clearProgress (storage s) (book_id b)) (book_id b)
                             (playlist (game ?s5)) (currentIndex (game ?s5)) (selectedIndices s) now\<rparr>"
  have start: "startGame rnd now False s = showGame ?s6"
    using book ne pool by (simp add: startGame_new Let_def)
  have cards: "card_values ?pl"
    using draws by (rule card_values_shuffled_pool)
  have len: "length ?pl = length is"
    by (simp add: length_shuffle)
  obtain u where u: "showGame ?s6 = Returned (?s6\<lparr>ui := u\<rparr>)" "activeScreen u = Game"
    using showGame_Returned[of ?s6] cards len ne by auto
  have "in_sync (?s5\<lparr>storage := saveProgress (storage (?s5\<lparr>storage := clearProgress (storage s) (book_id b)\<rparr>))
            (book_id b) (playlist (game ?s5)) (currentIndex (game ?s5)) (selectedIndices s) now\<rparr>) (book_id b)"
    using cards in_sync_saved[of "?s5\<lparr>storage := clearProgress (storage s) (book_id b)\<rparr>" "book_id b" "selectedIndices s" now]
    by (simp add: card_values_def)
  then have "in_sync ?s6 (book_id b)" by simp
  moreover have "in_sync (?s6\<lparr>ui := u\<rparr>) (book_id b) = in_sync ?s6 (book_id b)"
    by (rule in_sync_frame) simp_all
  moreover have "mset ?pl = mset ?pool"
    using draws by (rule mset_shuffle)
  ultimately show ?thesis
    using start u len by simp
qed

section \<open>Properties of the game\<close>

text \<open>
  Claim C10. A new game started with an empty selection returns at the guard: the stored
  progress, the playlist and the cursor are as before, and nothing else has changed except
  the \<open>active\<close> flag, which is set before the guard and is true afterwards, whatever it
  was.
\<close>

theorem startGame_empty_selection_only_sets_active:
  "selectedIndices s = [] \<Longrightarrow>
   startGame rnd now False s = Returned (s\<lparr>game := (game s)\<lparr>active := True\<rparr>\<rparr>) \<and>
   storage (state_of (startGame rnd now False s)) = storage s \<and>
   playlist (game (state_of (startGame rnd now False s))) = playlist (game s) \<and>
   currentIndex (game (state_of (startGame rnd now False s))) = currentIndex (game s) \<and>
   active (game (state_of (startGame rnd now False s)))"
  by (simp add: startGame_new)

theorem startGame_empty_selection_only_sets_active_witness:
  "selectedIndices opened_app = [] \<and>
   \<not> active (game opened_app) \<and>
   startGame zero_draws 0 False opened_app
     = Returned (opened_app\<lparr>game := (game opened_app)\<lparr>active := True\<rparr>\<rparr>) \<and>
   active (game (state_of (startGame zero_draws 0 False opened_app))) \<and>
   loadProgress (storage (state_of (startGame zero_draws 0 False opened_app))) (str ''b1'') = None"
proof -
  have e: "selectedIndices opened_app = []"
    by (simp add: opened_app_def)
  have "storage (state_of (startGame zero_draws 0 False opened_app)) = Map.empty"
    using startGame_empty_selection_only_sets_active [OF e, of zero_draws 0]
    by (simp add: opened_app_def)
  then show ?thesis
    using e startGame_empty_selection_only_sets_active [OF e, of zero_draws 0]
    by (simp add: opened_app_def initial_game_def loadProgress_def)
qed

lemma updateCardUI_cases:
  "(\<exists>e. updateCardUI s = Threw e s) \<or> (\<exists>u. updateCardUI s = Returned (s\<lparr>ui := u\<rparr>))"
  by (auto simp: updateCardUI_def Let_def split: sum.splits)

lemma persist_cases:
  "(\<exists>e. persist now s = Threw e s) \<or> (\<exists>st. persist now s = Returned (s\<lparr>storage := st\<rparr>))"
  by (auto simp: persist_def split: option.splits)

lemma game_after_card_and_persist:
  "game (state_of (andThen (updateCardUI s) (persist now))) = game s"
proof -
  consider e where "updateCardUI s = Threw e s" | u where "updateCardUI s = Returned (s\<lparr>ui := u\<rparr>)"
    using updateCardUI_cases[of s] by blast
  then show ?thesis
  proof cases
    case 1
    then show ?thesis by (simp add: andThen_def)
  next
    case 2
    then show ?thesis
      using persist_cases[of now "s\<lparr>ui := u\<rparr>"] by (auto simp: andThen_def)
  qed
qed

lemma game_nextQuestion:
  "game (state_of (nextQuestion now s)) =
     (if currentIndex (game s) < int (length (playlist (game s))) - 1
      then (game s)\<lparr>currentIndex := currentIndex (game s) + 1\<rparr> else game s)"
  by (simp add: nextQuestion_def game_after_card_and_persist)

lemma game_prevQuestion:
  "game (state_of (prevQuestion now s)) =
     (if currentIndex (game s) > 0
      then (game s)\<lparr>currentIndex := currentIndex (game s) - 1\<rparr> else game s)"
  by (simp add: prevQuestion_def game_after_card_and_persist)

text \<open>
  Claim C4. In a session whose cursor is inside the playlist, \<open>nextQuestion\<close> leaves the
  cursor at most at the last index, and at the last index it returns the state as it was
  (nothing changed, nothing stored, nothing thrown); \<open>prevQuestion\<close> leaves the cursor at
  least at 0, and at cursor 0 it returns the state as it was.
\<close>

theorem cursor_never_leaves_playlist:
  assumes "0 \<le> currentIndex (game s)"
    and "currentIndex (game s) < int (length (playlist (game s)))"
  shows "currentIndex (game (state_of (nextQuestion now s)))
           \<le> int (length (playlist (game (state_of (nextQuestion now s))))) - 1 \<and>
         (currentIndex (game s) = int (length (playlist (game s))) - 1
            \<longrightarrow> nextQuestion now s = Returned s) \<and>
         0 \<le> currentIndex (game (state_of (prevQuestion now s))) \<and>
         (currentIndex (game s) = 0 \<longrightarrow> prevQuestion now s = Returned s)"
  using assms
  by (simp add: game_nextQuestion game_prevQuestion) (simp add: nextQuestion_def prevQuestion_def)

lemma onEnd_decides_on_computed_displacement:
  assumes "isDragging w"
  shows "\<exists>cmd. onEnd fl g w = (w\<lparr>isDragging := False\<rparr>, Some cmd) \<and>
           onEnd fl g (w\<lparr>isDragging := False\<rparr>) = (w\<lparr>isDragging := False\<rparr>, None) \<and>
           (\<bar>fl (currentX w - startX w)\<bar> \<le> 100 \<longrightarrow> cmd = ResetCard) \<and>
           (100 < fl (currentX w - startX w) \<longrightarrow>
              cmd = (if currentIndex g < int (length (playlist g)) - 1
                     then SwipeRightNext else ResetCard)) \<and>
           (fl (currentX w - startX w) < - 100 \<longrightarrow>
              cmd = (if currentIndex g > 0 then SwipeLeftPrev else ResetCard))"
  using assms by (auto simp: onEnd_def threshold_def Let_def)

lemma getProp_total:
  "getProp d k = Inr v \<Longrightarrow> \<exists>v'. getProp d k' = Inr v'"
  by (cases d) auto

lemma state_of_resume:
  assumes "activeBook s = Some b" "loadProgress (storage s) (book_id b) = Some p"
    and "getProp p (str ''playlist'') = Inr (Arr xs)"
    and "getProp p (str ''currentIndex'') = Inr (Num c)"
  shows "game (state_of (startGame rnd now True s))
           = (game s)\<lparr>active := True, playlist := xs, currentIndex := c\<rparr>"
    and "alerts (state_of (startGame rnd now True s)) = alerts s"
    and "storage (state_of (startGame rnd now True s)) = storage s"
proof -
  obtain oi where oi: "getProp p (str ''originalIndices'') = Inr oi"
    using getProp_total[OF assms(3)] by blast
  note eq = startGame_resume_some[OF assms oi, of rnd now]
  show "game (state_of (startGame rnd now True s))
           = (game s)\<lparr>active := True, playlist := xs, currentIndex := c\<rparr>"
    by (simp add: eq Let_def state_of_showGame split: sum.splits)
  show "alerts (state_of (startGame rnd now True s)) = alerts s"
    by (simp add: eq Let_def state_of_showGame split: sum.splits)
  show "storage (state_of (startGame rnd now True s)) = storage s"
    by (simp add: eq Let_def state_of_showGame split: sum.splits)
qed

text \<open>
  Claim C9. A stored record whose \<open>playlist\<close> is an array and whose \<open>currentIndex\<close> is a
  number is returned by \<open>loadProgress\<close> whatever the number is, and a start in resume mode
  installs the playlist and the number unchanged; when the number is negative or not
  below the length of the playlist, the cursor is outside the playlist after the start.
\<close>

theorem resume_installs_stored_cursor_unchecked:
  assumes "activeBook s = Some b"
    and "storage s (getStorageKey (book_id b)) = Some (Parses d)"
    and "getProp d (str ''playlist'') = Inr (Arr xs)"
    and "getProp d (str ''currentIndex'') = Inr (Num c)"
  shows "loadProgress (storage s) (book_id b) = Some d \<and>
         playlist (game (state_of (startGame rnd now True s))) = xs \<and>
         currentIndex (game (state_of (startGame rnd now True s))) = c \<and>
         active (game (state_of (startGame rnd now True s))) \<and>
         (c < 0 \<or> int (length xs) \<le> c \<longrightarrow>
            \<not> (0 \<le> currentIndex (game (state_of (startGame rnd now True s))) \<and>
               currentIndex (game (state_of (startGame rnd now True s)))
                 < int (length (playlist (game (state_of (startGame rnd now True s)))))))"
proof -
  have l: "loadProgress (storage s) (book_id b) = Some d"
    using assms by (simp add: loadProgress_Some_iff)
  show ?thesis
    using l state_of_resume(1)[OF assms(1) l assms(3,4), of rnd now] by auto
qed

lemma alerts_startGame_new: "alerts (state_of (startGame rnd now False s)) = alerts s"
  by (simp add: startGame_new Let_def state_of_showGame split: option.splits)

text \<open>
  Claim C2. For a non-empty selection of distinct indices into the words of the active
  book, a new game returns with a playlist that has the same elements, with the same
  multiplicities, as the words at the selected indices, so that its length is the size of
  the selection, and with the cursor at 0.
\<close>

theorem new_game_playlist_is_permutation:
  assumes "activeBook s = Some b"
    and "valid_selection b (selectedIndices s) is"
    and "index_draws rnd"
  shows "\<exists>s'. startGame rnd now False s = Returned s' \<and>
           mset (playlist (game s')) = mset (map (\<lambda>i. wordObj (words b ! nat i)) is) \<and>
           length (playlist (game s')) = length is \<and>
           currentIndex (game s') = 0"
  using startGame_new_valid[OF assms, of now] by blast


text \<open>
  What a start in resume mode does when the stored \<open>originalIndices\<close> can be made a set,
  as it can for every record that \<open>saveProgress\<close> writes, and what it does without a
  record.
\<close>

lemma resume_restores_or_falls_back:
  assumes "activeBook s = Some b"
  shows "(loadProgress (storage s) (book_id b) = Some p \<and>
          getProp p (str ''originalIndices'') = Inr oi \<and> newSet oi = Inr sel \<longrightarrow>
            getProp p (str ''playlist'')
              = Inr (Arr (playlist (game (state_of (startGame rnd now True s))))) \<and>
            getProp p (str ''currentIndex'')
              = Inr (Num (currentIndex (game (state_of (startGame rnd now True s))))) \<and>
            selectedIndices (state_of (startGame rnd now True s)) = sel \<and>
            alerts (state_of (startGame rnd now True s)) = alerts s) \<and>
         (loadProgress (storage s) (book_id b) = None \<longrightarrow>
            startGame rnd now True s
              = startGame rnd now False
                  (alert resume_notice (s\<lparr>game := (game s)\<lparr>active := True\<rparr>\<rparr>)) \<and>
            alerts (state_of (startGame rnd now True s)) = alerts s @ [resume_notice] \<and>
            (valid_selection b (selectedIndices s) is \<and> index_draws rnd \<longrightarrow>
               (\<exists>s'. startGame rnd now True s = Returned s' \<and> active (game s') \<and>
                      currentIndex (game s') = 0 \<and> length (playlist (game s')) = length is \<and>
                      activeScreen (ui s') = Game)))"
proof (intro conjI impI)
  assume a: "loadProgress (storage s) (book_id b) = Some p \<and>
          getProp p (str ''originalIndices'') = Inr oi \<and> newSet oi = Inr sel"
  then obtain xs c where xc: "getProp p (str ''playlist'') = Inr (Arr xs)"
      "getProp p (str ''currentIndex'') = Inr (Num c)"
    by (auto simp: loadProgress_Some_iff)
  have l: "loadProgress (storage s) (book_id b) = Some p" using a by simp
  note g = state_of_resume[OF assms l xc, of rnd now]
  show "getProp p (str ''playlist'')
              = Inr (Arr (playlist (game (state_of (startGame rnd now True s)))))"
    using xc g(1) by simp
  show "getProp p (str ''currentIndex'')
              = Inr (Num (currentIndex (game (state_of (startGame rnd now True s)))))"
    using xc g(1) by simp
  show "alerts (state_of (startGame rnd now True s)) = alerts s"
    by (rule g(2))
  show "selectedIndices (state_of (startGame rnd now True s)) = sel"
    using a startGame_resume_some[OF assms l xc, of oi rnd now]
    by (simp add: Let_def state_of_showGame)
next
  assume n: "loadProgress (storage s) (book_id b) = None"
  let ?s1 = "alert resume_notice (s\<lparr>game := (game s)\<lparr>active := True\<rparr>\<rparr>)"
  show eq: "startGame rnd now True s = startGame rnd now False ?s1"
    using assms n by (rule startGame_resume_none)
  show "alerts (state_of (startGame rnd now True s)) = alerts s @ [resume_notice]"
    by (simp add: eq alerts_startGame_new) (simp add: alert_def)
  assume v: "valid_selection b (selectedIndices s) is \<and> index_draws rnd"
  have "activeBook ?s1 = Some b" "valid_selection b (selectedIndices ?s1) is"
    using assms v by (simp_all add: alert_def)
  from startGame_new_valid[OF this, of rnd now] v
  show "\<exists>s'. startGame rnd now True s = Returned s' \<and> active (game s') \<and>
                      currentIndex (game s') = 0 \<and> length (playlist (game s')) = length is \<and>
                      activeScreen (ui s') = Game"
    by (auto simp: eq)
qed

lemma index_draws_zero: "index_draws zero_draws"
  by (simp add: index_draws_def zero_draws_def)

lemma valid_selection_demo: "valid_selection demo_book [Num 0, Num 2] [0, 2]"
  by (simp add: valid_selection_def demo_book_def demo_words_def)



theorem new_game_playlist_is_permutation_witness:
  "activeBook selected_app = Some demo_book \<and>
   valid_selection demo_book (selectedIndices selected_app) [0, 2] \<and>
   index_draws zero_draws \<and>
   (\<exists>s'. startGame zero_draws 0 False selected_app = Returned s' \<and>
      mset (playlist (game s')) = mset (map (\<lambda>i. wordObj (words demo_book ! nat i)) [0, 2]) \<and>
      length (playlist (game s')) = length [0::int, 2] \<and>
      currentIndex (game s') = 0)"
proof -
  have b: "activeBook selected_app = Some demo_book"
    by (simp add: selected_app_def opened_app_def)
  have v: "valid_selection demo_book (selectedIndices selected_app) [0, 2]"
    using valid_selection_demo by (simp add: selected_app_def)
  show ?thesis
    using b v index_draws_zero new_game_playlist_is_permutation [OF b v index_draws_zero, of 0]
    by blast
qed


theorem cursor_never_leaves_playlist_witness:
  "0 \<le> currentIndex (game playing_app) \<and>
   currentIndex (game playing_app) < int (length (playlist (game playing_app))) \<and>
   currentIndex (game (state_of (nextQuestion 0 playing_app))) \<le> 1 \<and>
   0 \<le> currentIndex (game (state_of (prevQuestion 0 playing_app))) \<and>
   prevQuestion 0 playing_app = Returned playing_app"
proof -
  have r: "0 \<le> currentIndex (game playing_app)"
      "currentIndex (game playing_app) < int (length (playlist (game playing_app)))"
    by (simp_all add: playing_app_def)
  have "length (playlist (game (state_of (nextQuestion 0 playing_app)))) = 2"
    by (simp add: game_nextQuestion) (simp add: playing_app_def)
  moreover have "currentIndex (game playing_app) = 0"
    by (simp add: playing_app_def)
  ultimately show ?thesis
    using r cursor_never_leaves_playlist [OF r, of 0] by simp
qed

lemma second_card_game:
  "active (game second_card_app) \<and> currentIndex (game second_card_app) = 1 \<and>
   length (playlist (game second_card_app)) = 2"
proof -
  have b: "activeBook selected_app = Some demo_book"
    by (simp add: selected_app_def opened_app_def)
  have v: "valid_selection demo_book (selectedIndices selected_app) [0, 2]"
    using valid_selection_demo by (simp add: selected_app_def)
  obtain s' where s': "startGame zero_draws 0 False selected_app = Returned s'"
      "length (playlist (game s')) = length [0::int, 2]" "currentIndex (game s') = 0"
      "active (game s')"
    using startGame_new_valid [OF b v index_draws_zero, of 0] by blast
  have "game second_card_app = (game s')\<lparr>currentIndex := 1\<rparr>"
    using s' by (simp add: second_card_app_def game_nextQuestion)
  then show ?thesis
    using s' by simp
qed

text \<open>
  Claim C5. The claim asks that a released gesture whose displacement between the press
  and the release is below the threshold is a reset. The source decides on \<open>currentX\<close>,
  which only a move sets. In the session above, at the second of two cards, the first
  press at 300 released without a move has displacement 0, but the source computes
  \<open>0 - 300\<close> from the \<open>currentX\<close> it started with and commits the retreat.
\<close>

theorem tap_without_move_navigates:
  assumes "fl (- 300) = - 300"
  shows "active (game second_card_app) \<and> currentIndex (game second_card_app) = 1 \<and>
         length (playlist (game second_card_app)) = 2 \<and>
         gesture fl 300 [] (game second_card_app) idle_swipe
           = (\<lparr>startX = 300, currentX = 0, isDragging = False\<rparr>, Some SwipeLeftPrev)"
  using assms second_card_game
  by (simp add: gesture_def onStart_def onEnd_def idle_swipe_def threshold_def Let_def)

theorem tap_without_move_navigates_witness:
  "no_rounding (- 300) = - 300 \<and>
   currentIndex (game second_card_app) = 1 \<and>
   snd (gesture no_rounding 300 [] (game second_card_app) idle_swipe) = Some SwipeLeftPrev"
proof -
  have n: "no_rounding (- 300) = - 300"
    by (simp add: no_rounding_def)
  show ?thesis
    using n tap_without_move_navigates [of no_rounding] by simp
qed

lemma tampered_basics:
  "activeBook (tampered_app c oi) = Some demo_book"
  "storage (tampered_app c oi) (getStorageKey (book_id demo_book))
     = Some (Parses (tampered_record c oi))"
  "getProp (tampered_record c oi) (str ''playlist'') = Inr (Arr [wordObj cat])"
  "getProp (tampered_record c oi) (str ''currentIndex'') = Inr c"
  "getProp (tampered_record c oi) (str ''originalIndices'') = Inr oi"
  "selectedIndices (tampered_app c oi) = [Num 1]"
  "alerts (tampered_app c oi) = []"
  by (simp_all add: tampered_app_def tampered_record_def opened_app_def demo_book_def str_def)

theorem resume_installs_stored_cursor_unchecked_witness:
  "activeBook (tampered_app (Num 7) (Arr [])) = Some demo_book \<and>
   storage (tampered_app (Num 7) (Arr [])) (getStorageKey (book_id demo_book))
     = Some (Parses (tampered_record (Num 7) (Arr []))) \<and>
   getProp (tampered_record (Num 7) (Arr [])) (str ''playlist'') = Inr (Arr [wordObj cat]) \<and>
   getProp (tampered_record (Num 7) (Arr [])) (str ''currentIndex'') = Inr (Num 7) \<and>
   loadProgress (storage (tampered_app (Num 7) (Arr []))) (book_id demo_book)
     = Some (tampered_record (Num 7) (Arr [])) \<and>
   playlist (game (state_of (startGame zero_draws 0 True (tampered_app (Num 7) (Arr [])))))
     = [wordObj cat] \<and>
   currentIndex (game (state_of (startGame zero_draws 0 True (tampered_app (Num 7) (Arr [])))))
     = 7 \<and>
   \<not> (0 \<le> currentIndex (game (state_of (startGame zero_draws 0 True
                                            (tampered_app (Num 7) (Arr []))))) \<and>
      currentIndex (game (state_of (startGame zero_draws 0 True (tampered_app (Num 7) (Arr [])))))
        < int (length (playlist (game (state_of (startGame zero_draws 0 True
                                                   (tampered_app (Num 7) (Arr []))))))))"
  using tampered_basics(1-4) [of "Num 7" "Arr []"]
    resume_installs_stored_cursor_unchecked
      [OF tampered_basics(1-4) [of "Num 7" "Arr []"], of zero_draws 0]
  by simp

lemma resume_offered:
  "updateWelcomeUI (str ''b1'') (tampered_app (Num 0) (Num 0)) = Returned resume_offered_app"
  "resume_offered_app
     = (tampered_app (Num 0) (Num 0))
         \<lparr>selectedIndices := [],
          ui := (ui (tampered_app (Num 0) (Num 0)))\<lparr>resumeBtnShown := True\<rparr>\<rparr>"
proof -
  let ?t = "tampered_app (Num 0) (Num 0)"
  have l: "loadProgress (storage ?t) (str ''b1'') = Some (tampered_record (Num 0) (Num 0))"
    using tampered_basics(2-4) [of "Num 0" "Num 0"]
    by (simp add: loadProgress_Some_iff demo_book_def)
  have u: "updateWelcomeUI (str ''b1'') ?t
             = Returned (?t\<lparr>selectedIndices := [], ui := (ui ?t)\<lparr>resumeBtnShown := True\<rparr>\<rparr>)"
    using l tampered_basics(1,5) [of "Num 0" "Num 0"]
    by (simp add: updateWelcomeUI_def andThen_def renderTopicList_def)
  show "resume_offered_app = ?t\<lparr>selectedIndices := [], ui := (ui ?t)\<lparr>resumeBtnShown := True\<rparr>\<rparr>"
    by (simp add: resume_offered_app_def u)
  then show "updateWelcomeUI (str ''b1'') ?t = Returned resume_offered_app"
    using u by simp
qed

text \<open>
  Claim C6. The claim asks that a start in resume mode either restores playlist, cursor
  and selection from the record that \<open>loadProgress\<close> accepts, or shows the notice and
  starts a new game, and never leaves the user in a dead state. The source does neither
  for a stored record whose \<open>originalIndices\<close> is the number 0, which \<open>loadProgress\<close>
  accepts since it checks \<open>playlist\<close> and \<open>currentIndex\<close> only. Opening the book returns
  and offers to resume. The start in resume mode then throws at \<open>new Set(0)\<close> after
  playlist and cursor are installed: no notice is shown, no new game is started and the
  selection screen stays in place, with the offer to resume that throws again.
\<close>

theorem resume_throws_on_unchecked_selection:
  "updateWelcomeUI (str ''b1'') (tampered_app (Num 0) (Num 0)) = Returned resume_offered_app \<and>
   resumeBtnShown (ui resume_offered_app) \<and>
   activeBook resume_offered_app = Some demo_book \<and>
   loadProgress (storage resume_offered_app) (book_id demo_book)
     = Some (tampered_record (Num 0) (Num 0)) \<and>
   getProp (tampered_record (Num 0) (Num 0)) (str ''originalIndices'') = Inr (Num 0) \<and>
   startGame zero_draws 0 True resume_offered_app
     = Threw TypeError
         (resume_offered_app
            \<lparr>game := \<lparr>active = True, playlist = [wordObj cat], currentIndex = 0\<rparr>\<rparr>) \<and>
   selectedIndices (state_of (startGame zero_draws 0 True resume_offered_app)) = [] \<and>
   alerts (state_of (startGame zero_draws 0 True resume_offered_app)) = [] \<and>
   activeScreen (ui (state_of (startGame zero_draws 0 True resume_offered_app))) = Welcome \<and>
   resumeBtnShown (ui (state_of (startGame zero_draws 0 True resume_offered_app)))"
proof -
  let ?t = "tampered_app (Num 0) (Num 0)"
  let ?r = "tampered_record (Num 0) (Num 0)"
  note eq = resume_offered(2)
  have b: "activeBook resume_offered_app = Some demo_book"
    by (simp add: eq tampered_basics)
  have l: "loadProgress (storage resume_offered_app) (book_id demo_book) = Some ?r"
    using tampered_basics(2-4) [of "Num 0" "Num 0"]
    by (simp add: eq loadProgress_Some_iff)
  have g: "game resume_offered_app = initial_game"
    by (simp add: eq tampered_app_def opened_app_def)
  have "startGame zero_draws 0 True resume_offered_app
          = Threw TypeError
              (resume_offered_app\<lparr>game := (game resume_offered_app)
                 \<lparr>active := True, playlist := [wordObj cat], currentIndex := 0\<rparr>\<rparr>)"
    using startGame_resume_some [OF b l tampered_basics(3,4,5), of zero_draws 0]
    by (simp add: Let_def)
  then have run: "startGame zero_draws 0 True resume_offered_app
          = Threw TypeError
              (resume_offered_app
                 \<lparr>game := \<lparr>active = True, playlist = [wordObj cat], currentIndex = 0\<rparr>\<rparr>)"
    by (simp add: g initial_game_def)
  have rest:
    "resumeBtnShown (ui resume_offered_app) \<and> selectedIndices resume_offered_app = [] \<and>
     alerts resume_offered_app = [] \<and> activeScreen (ui resume_offered_app) = Welcome"
    by (simp add: eq tampered_basics) (simp add: tampered_app_def opened_app_def demo_page_def)
  show ?thesis
    using resume_offered(1) b l rest tampered_basics(5) [of "Num 0" "Num 0"]
    by (simp add: run)
qed

section \<open>Properties of the word source\<close>

lemma splitComma_nonempty: "splitComma line \<noteq> []"
  by (cases line) (auto split: list.splits)

lemma parseLine_row:
  "parseLine line (Suc n) acc =
     (case row_word line of None \<Rightarrow> acc | Some w \<Rightarrow> acc\<lparr>p_words := p_words acc @ [w]\<rparr>)"
proof (cases "splitComma line")
  case Nil
  then show ?thesis using splitComma_nonempty by blast
next
  case (Cons p0 ps)
  then show ?thesis
    by (cases ps) (simp_all add: parseLine_def row_word_def first_field_def second_field_def Let_def)
qed

lemma parseLine_first:
  "parseLine line 0 acc =
     (if first_field line \<noteq> [] \<and> \<not> header_token (first_field line)
      then acc\<lparr>p_title := Some (first_field line)\<rparr> else acc)"
proof (cases "splitComma line")
  case Nil
  then show ?thesis using splitComma_nonempty by blast
next
  case (Cons p0 ps)
  then show ?thesis
    by (simp add: parseLine_def first_field_def header_token_def isHeader_def Let_def)
qed

lemma forEachLine_rows:
  "forEachLine ls (Suc n) acc = acc\<lparr>p_words := p_words acc @ List.map_filter row_word ls\<rparr>"
proof (induction ls arbitrary: n acc)
  case Nil
  then show ?case by (simp add: List.map_filter_simps)
next
  case (Cons l ls)
  show ?case
    by (cases "row_word l") (simp_all add: Cons.IH parseLine_row List.map_filter_simps)
qed

text \<open>
  Claim C8. Of the lines of the text that are not blank, the first one is never a word:
  its first field is the title, unless that field is empty or a header token, in which
  case there is no title. Every later line gives one word, made of its first two fields,
  with an empty second part when the line has no second field, unless its first field is
  empty, in which case the line is skipped. A text without such lines gives no title and no
  words.
\<close>

theorem parse_title_then_words:
  "(nonblank_lines csvText = [] \<longrightarrow> parse csvText = \<lparr>p_words = [], p_title = None\<rparr>) \<and>
   (nonblank_lines csvText = first # rest \<longrightarrow>
      p_title (parse csvText)
        = (if first_field first \<noteq> [] \<and> \<not> header_token (first_field first)
           then Some (first_field first) else None) \<and>
      p_words (parse csvText) = List.map_filter row_word rest)"
  by (auto simp: parse_def nonblank_lines_def parseLine_first forEachLine_rows Let_def)

theorem parse_title_then_words_witness:
  "nonblank_lines sample_csv
     = str ''Animals,x'' # [str '' cat , a ,z'', str ''dog'', str '' ,b'', str ''word,w''] \<and>
   p_title (parse sample_csv) = Some (str ''Animals'') \<and>
   p_words (parse sample_csv)
     = [\<lparr>w_term = str ''cat'', w_zhuyin = str ''a''\<rparr>, \<lparr>w_term = str ''dog'', w_zhuyin = []\<rparr>,
        \<lparr>w_term = str ''word'', w_zhuyin = str ''w''\<rparr>] \<and>
   nonblank_lines header_csv = str ''Term,Zhuyin'' # [str ''cat,a''] \<and>
   p_title (parse header_csv) = None \<and>
   p_words (parse header_csv) = [\<lparr>w_term = str ''cat'', w_zhuyin = str ''a''\<rparr>] \<and>
   nonblank_lines [] = [] \<and>
   parse [] = \<lparr>p_words = [], p_title = None\<rparr>"
proof -
  let ?rest = "[str '' cat , a ,z'', str ''dog'', str '' ,b'', str ''word,w'']"
  have l1: "nonblank_lines sample_csv = str ''Animals,x'' # ?rest"
    by code_simp
  have f1: "first_field (str ''Animals,x'') = str ''Animals''"
    by code_simp
  have h1: "\<not> header_token (str ''Animals'')"
    by code_simp
  have r1: "List.map_filter row_word ?rest
              = [\<lparr>w_term = str ''cat'', w_zhuyin = str ''a''\<rparr>, \<lparr>w_term = str ''dog'', w_zhuyin = []\<rparr>,
                 \<lparr>w_term = str ''word'', w_zhuyin = str ''w''\<rparr>]"
    by code_simp
  have n1: "str ''Animals'' \<noteq> []"
    by code_simp
  have a: "p_title (parse sample_csv) = Some (str ''Animals'') \<and>
           p_words (parse sample_csv)
             = [\<lparr>w_term = str ''cat'', w_zhuyin = str ''a''\<rparr>, \<lparr>w_term = str ''dog'', w_zhuyin = []\<rparr>,
                \<lparr>w_term = str ''word'', w_zhuyin = str ''w''\<rparr>]"
    using parse_title_then_words [of sample_csv "str ''Animals,x''" ?rest] l1 n1 h1
    by (simp only: f1 r1 simp_thms if_True)
  have l2: "nonblank_lines header_csv = str ''Term,Zhuyin'' # [str ''cat,a'']"
    by code_simp
  have f2: "first_field (str ''Term,Zhuyin'') = str ''Term''"
    by code_simp
  have h2: "header_token (str ''Term'')"
    by code_simp
  have r2: "List.map_filter row_word [str ''cat,a''] = [\<lparr>w_term = str ''cat'', w_zhuyin = str ''a''\<rparr>]"
    by code_simp
  have b: "p_title (parse header_csv) = None \<and>
           p_words (parse header_csv) = [\<lparr>w_term = str ''cat'', w_zhuyin = str ''a''\<rparr>]"
    using parse_title_then_words [of header_csv "str ''Term,Zhuyin''" "[str ''cat,a'']"] l2 h2
    by (simp only: f2 r2 simp_thms if_False)
  have l3: "nonblank_lines [] = []"
    by code_simp
  have c: "parse [] = \<lparr>p_words = [], p_title = None\<rparr>"
    using parse_title_then_words [of "[]"] l3 by blast
  show ?thesis
    using l1 a l2 b l3 c by blast
qed

section \<open>Properties of the shuffle\<close>

lemma length_fisher_yates_from: "length (fisher_yates_from pick i xs) = length xs"
  by (induction i arbitrary: xs) simp_all

lemma mset_fisher_yates_from:
  "\<forall>k\<le>i. pick k \<le> k \<Longrightarrow> i < length xs \<Longrightarrow> mset (fisher_yates_from pick i xs) = mset xs"
proof (induction i arbitrary: xs)
  case 0
  then show ?case by simp
next
  case (Suc i)
  let ?j = "pick (Suc i)"
  have j: "?j \<le> Suc i" using Suc.prems(1) by simp
  have "mset (xs[Suc i := xs ! ?j, ?j := xs ! Suc i]) = mset xs"
    using j Suc.prems(2) by (simp add: mset_swap)
  moreover have "mset (fisher_yates_from pick i (xs[Suc i := xs ! ?j, ?j := xs ! Suc i]))
                   = mset (xs[Suc i := xs ! ?j, ?j := xs ! Suc i])"
    using Suc.prems by (intro Suc.IH) simp_all
  ultimately show ?case by simp
qed

lemma nth_fisher_yates_from_above:
  "\<forall>k\<le>i. pick k \<le> k \<Longrightarrow> i < j \<Longrightarrow> fisher_yates_from pick i xs ! j = xs ! j"
proof (induction i arbitrary: xs)
  case 0
  then show ?case by simp
next
  case (Suc i)
  have "pick (Suc i) \<le> Suc i" using Suc.prems(1) by simp
  then have "pick (Suc i) \<noteq> j" "Suc i \<noteq> j" using Suc.prems(2) by simp_all
  moreover have "fisher_yates_from pick i (xs[Suc i := xs ! pick (Suc i), pick (Suc i) := xs ! Suc i]) ! j
      = (xs[Suc i := xs ! pick (Suc i), pick (Suc i) := xs ! Suc i]) ! j"
    using Suc.prems by (intro Suc.IH) simp_all
  ultimately show ?case by simp
qed

lemma fisher_yates_from_cong:
  "\<forall>k. 1 \<le> k \<and> k \<le> i \<longrightarrow> pick k = pick' k \<Longrightarrow>
   fisher_yates_from pick i xs = fisher_yates_from pick' i xs"
  by (induction i arbitrary: xs) simp_all

lemma fisher_yates_from_inj:
  assumes "distinct xs" "i < length xs" "\<forall>k\<le>i. pick k \<le> k" "\<forall>k\<le>i. pick' k \<le> k"
    and "fisher_yates_from pick i xs = fisher_yates_from pick' i xs"
  shows "\<forall>k. 1 \<le> k \<and> k \<le> i \<longrightarrow> pick k = pick' k"
  using assms
proof (induction i arbitrary: xs)
  case 0
  then show ?case by simp
next
  case (Suc i)
  let ?a = "xs[Suc i := xs ! pick (Suc i), pick (Suc i) := xs ! Suc i]"
  let ?b = "xs[Suc i := xs ! pick' (Suc i), pick' (Suc i) := xs ! Suc i]"
  have j: "pick (Suc i) \<le> Suc i" "pick' (Suc i) \<le> Suc i"
    using Suc.prems(3,4) by simp_all
  have lo: "\<forall>k\<le>i. pick k \<le> k" "\<forall>k\<le>i. pick' k \<le> k"
    using Suc.prems(3,4) by simp_all
  have eq: "fisher_yates_from pick i ?a = fisher_yates_from pick' i ?b"
    using Suc.prems(5) by simp
  have "fisher_yates_from pick i ?a ! Suc i = ?a ! Suc i"
    using lo(1) by (intro nth_fisher_yates_from_above) simp_all
  moreover have "fisher_yates_from pick' i ?b ! Suc i = ?b ! Suc i"
    using lo(2) by (intro nth_fisher_yates_from_above) simp_all
  ultimately have "?a ! Suc i = ?b ! Suc i" using eq by simp
  moreover have "?a ! Suc i = xs ! pick (Suc i)"
    using Suc.prems(2) j by (simp add: nth_list_update)
  moreover have "?b ! Suc i = xs ! pick' (Suc i)"
    using Suc.prems(2) j by (simp add: nth_list_update)
  ultimately have "xs ! pick (Suc i) = xs ! pick' (Suc i)" by simp
  then have top: "pick (Suc i) = pick' (Suc i)"
    using Suc.prems(1,2) j by (simp add: nth_eq_iff_index_eq)
  then have same: "?b = ?a" by simp
  have "distinct ?a"
    using Suc.prems(1,2) j by (metis distinct_swap le_imp_less_Suc less_trans_Suc not_less_eq)
  moreover have "i < length ?a" using Suc.prems(2) by simp
  moreover have "fisher_yates_from pick i ?a = fisher_yates_from pick' i ?a"
    using eq same by simp
  ultimately have "\<forall>k. 1 \<le> k \<and> k \<le> i \<longrightarrow> pick k = pick' k"
    using lo by (intro Suc.IH) 
  then show ?case using top by (auto simp: le_Suc_eq)
qed

lemma fisher_yates_from_surj:
  assumes "i < length xs" "length ys = length xs"
    and "mset (take (Suc i) ys) = mset (take (Suc i) xs)"
    and "drop (Suc i) ys = drop (Suc i) xs"
  shows "\<exists>pick. (\<forall>k. pick k \<le> k) \<and> fisher_yates_from pick i xs = ys"
  using assms
proof (induction i arbitrary: xs)
  case 0
  have "take 1 ys = [ys ! 0]" "take 1 xs = [xs ! 0]"
    using 0(1,2) by (simp_all add: take_Suc_conv_app_nth)
  then have "ys ! 0 = xs ! 0" using 0(3) by simp
  then have "take 1 ys = take 1 xs"
    using \<open>take 1 ys = [ys ! 0]\<close> \<open>take 1 xs = [xs ! 0]\<close> by simp
  then have "ys = xs"
    using 0(4) by (metis One_nat_def append_take_drop_id)
  then have "fisher_yates_from (\<lambda>k. 0) 0 xs = ys"
    by simp
  then show ?case by (intro exI[of _ "\<lambda>k. 0"]) simp
next
  case (Suc i)
  let ?n = "Suc (Suc i)"
  have ly: "Suc i < length ys" using Suc.prems(1,2) by simp
  have "ys ! Suc i \<in> set (take ?n ys)"
    using ly by (simp add: take_Suc_conv_app_nth)
  then have "ys ! Suc i \<in> set (take ?n xs)"
    using Suc.prems(3) by (metis set_mset_mset)
  then obtain j where j: "j < ?n" "xs ! j = ys ! Suc i"
    using Suc.prems(1) by (auto simp: in_set_conv_nth)
  let ?a = "xs[Suc i := xs ! j, j := xs ! Suc i]"
  have la: "length ?a = length xs" by simp
  have top: "?a ! Suc i = ys ! Suc i"
    using j Suc.prems(1) by (auto simp: nth_list_update)
  have "take ?n ?a = (take ?n xs)[Suc i := xs ! j, j := xs ! Suc i]"
    by (simp add: take_update_swap)
  also have "mset \<dots> = mset (take ?n xs)"
    using j(1) Suc.prems(1) mset_swap[of j "take ?n xs" "Suc i"] by simp
  finally have full: "mset (take ?n ?a) = mset (take ?n ys)"
    using Suc.prems(3) by simp
  have "take ?n ?a = take (Suc i) ?a @ [?a ! Suc i]"
    using Suc.prems(1) by (simp add: take_Suc_conv_app_nth)
  moreover have "take ?n ys = take (Suc i) ys @ [ys ! Suc i]"
    using ly by (simp add: take_Suc_conv_app_nth)
  ultimately have pre: "mset (take (Suc i) ys) = mset (take (Suc i) ?a)"
    using full top by simp
  have "drop ?n ?a = drop ?n xs"
    using j by (simp add: drop_update_cancel)
  then have "drop ?n ?a = drop ?n ys" using Suc.prems(4) by simp
  moreover have "drop (Suc i) ?a = ?a ! Suc i # drop ?n ?a"
    using Suc.prems(1) by (simp add: Cons_nth_drop_Suc)
  moreover have "drop (Suc i) ys = ys ! Suc i # drop ?n ys"
    using ly by (simp add: Cons_nth_drop_Suc)
  ultimately have post: "drop (Suc i) ys = drop (Suc i) ?a"
    using top by simp
  have "i < length ?a" "length ys = length ?a"
    using Suc.prems(1,2) by simp_all
  from Suc.IH[OF this pre post]
  obtain pick where pick: "\<forall>k. pick k \<le> k" "fisher_yates_from pick i ?a = ys"
    by blast
  let ?p = "pick(Suc i := j)"
  have "fisher_yates_from ?p i ?a = fisher_yates_from pick i ?a"
    by (rule fisher_yates_from_cong) simp
  then have "fisher_yates_from ?p (Suc i) xs = ys"
    using pick(2) by simp
  moreover have "\<forall>k. ?p k \<le> k" using pick(1) j by simp
  ultimately show ?case by blast
qed

lemma drawn_indices_le: "index_draws rnd \<Longrightarrow> drawn_indices rnd n i \<le> i"
  by (simp add: drawn_indices_def index_draws_def less_Suc_eq_le [symmetric])

lemma shuffle_loop_fisher_yates:
  assumes "index_draws rnd" "c + Suc k = n"
  shows "shuffle_loop rnd c (Suc k) xs = fisher_yates_from (drawn_indices rnd n) k xs"
  using assms(2)
proof (induction k arbitrary: c xs)
  case 0
  have "rnd c (Suc 0) < Suc 0"
    using assms(1) unfolding index_draws_def by blast
  then have "rnd c (Suc 0) = 0"
    by simp
  then show ?case by (simp add: Let_def)
next
  case (Suc k)
  have c: "n - Suc (Suc k) = c" using Suc.prems by simp
  have "shuffle_loop rnd c (Suc (Suc k)) xs
          = shuffle_loop rnd (Suc c) (Suc k)
              (xs[Suc k := xs ! rnd c (Suc (Suc k)),
                  rnd c (Suc (Suc k)) := xs ! Suc k])"
    by (simp add: Let_def)
  also have "\<dots> = fisher_yates_from (drawn_indices rnd n) k
              (xs[Suc k := xs ! rnd c (Suc (Suc k)),
                  rnd c (Suc (Suc k)) := xs ! Suc k])"
    using Suc.prems by (intro Suc.IH) simp
  also have "\<dots> = fisher_yates_from (drawn_indices rnd n) (Suc k) xs"
    by (simp add: drawn_indices_def c)
  finally show ?case .
qed

lemma shuffle_fisher_yates:
  assumes "index_draws rnd"
  shows "shuffle rnd xs = fisher_yates (drawn_indices rnd (length xs)) xs"
proof (cases xs)
  case Nil
  then show ?thesis by (simp add: shuffle_def fisher_yates_def)
next
  case (Cons x xs')
  then have "length xs = Suc (length xs')" by simp
  then show ?thesis
    using shuffle_loop_fisher_yates[OF assms, of 0 "length xs'" "length xs" xs]
    by (simp add: shuffle_def fisher_yates_def)
qed

lemma choice_vectors_0: "choice_vectors 0 = {[]}"
  by (auto simp: choice_vectors_def)

lemma choice_vectors_Suc:
  "choice_vectors (Suc n) = (\<lambda>(js, j). js @ [j]) ` (choice_vectors n \<times> {..n})"
proof (intro set_eqI iffI)
  fix js assume a: "js \<in> choice_vectors (Suc n)"
  then have l: "length js = Suc n" and b: "\<forall>i<Suc n. js ! i \<le> i"
    by (simp_all add: choice_vectors_def)
  from l have ne: "js \<noteq> []" by auto
  have "butlast js \<in> choice_vectors n"
    using l b by (simp add: choice_vectors_def nth_butlast)
  moreover have "last js \<le> n"
    using l b ne by (simp add: last_conv_nth)
  moreover have "js = butlast js @ [last js]"
    using ne by simp
  ultimately show "js \<in> (\<lambda>(js, j). js @ [j]) ` (choice_vectors n \<times> {..n})"
    by (metis (mono_tags, lifting) SigmaI atMost_iff case_prod_conv image_eqI)
next
  fix js assume "js \<in> (\<lambda>(js, j). js @ [j]) ` (choice_vectors n \<times> {..n})"
  then obtain ks j where "js = ks @ [j]" "ks \<in> choice_vectors n" "j \<le> n"
    by auto
  then show "js \<in> choice_vectors (Suc n)"
    by (auto simp: choice_vectors_def nth_append less_Suc_eq)
qed

lemma card_choice_vectors: "finite (choice_vectors n) \<and> card (choice_vectors n) = fact n"
proof (induction n)
  case 0
  then show ?case by (simp add: choice_vectors_0)
next
  case (Suc n)
  have inj: "inj_on (\<lambda>(js, j). js @ [j]) (choice_vectors n \<times> {..n})"
    by (auto simp: inj_on_def)
  have fin: "finite (choice_vectors n \<times> {..n})"
    using Suc.IH by simp
  have "card (choice_vectors (Suc n)) = card (choice_vectors n \<times> {..n})"
    by (simp only: choice_vectors_Suc card_image[OF inj])
  also have "\<dots> = fact n * Suc n"
    using Suc.IH by (simp add: card_cartesian_product)
  finally have "card (choice_vectors (Suc n)) = fact (Suc n)"
    by (simp add: mult.commute)
  moreover have "finite (choice_vectors (Suc n))"
    using fin by (simp only: choice_vectors_Suc finite_imageI)
  ultimately show ?case by simp
qed

lemma one_choice_vector_per_permutation:
  assumes "distinct xs" "mset ys = mset xs"
  shows "card {js \<in> choice_vectors (length xs). fisher_yates (nth js) xs = ys} = 1"
proof (cases xs)
  case Nil
  then have "ys = []" using assms(2) by simp
  then have "{js \<in> choice_vectors (length xs). fisher_yates (nth js) xs = ys} = {[]}"
    using Nil by (auto simp: choice_vectors_0 fisher_yates_def)
  then show ?thesis by simp
next
  case (Cons x xs')
  define n where "n = length xs"
  define m where "m = length xs'"
  have n: "n = Suc m" "m < length xs" "length xs - 1 = m"
    using Cons by (simp_all add: n_def m_def)
  have ly: "length ys = length xs"
    using assms(2) by (metis size_mset)
  have "mset (take (Suc m) ys) = mset (take (Suc m) xs)" "drop (Suc m) ys = drop (Suc m) xs"
    using ly n assms(2) n_def by simp_all
  from fisher_yates_from_surj[OF n(2) ly this]
  obtain pick where pick: "\<forall>k. pick k \<le> k" "fisher_yates_from pick m xs = ys"
    by blast
  let ?js0 = "map pick [0..<n]"
  have js0: "?js0 \<in> choice_vectors n"
    using pick(1) by (simp add: choice_vectors_def)
  have mn: "m < n" using n(1) by simp
  have "fisher_yates_from (nth ?js0) m xs = fisher_yates_from pick m xs"
    using mn by (intro fisher_yates_from_cong) auto
  then have run0: "fisher_yates_from (nth ?js0) m xs = ys"
    using pick(2) by simp
  have "js = ?js0" if js: "js \<in> choice_vectors n" and run: "fisher_yates_from (nth js) m xs = ys"
    for js
  proof (rule nth_equalityI)
    show "length js = length ?js0"
      using js by (simp add: choice_vectors_def)
  next
    fix i assume "i < length js"
    then have i: "i < n" using js by (simp add: choice_vectors_def)
    have b: "\<forall>k\<le>m. js ! k \<le> k" "\<forall>k\<le>m. ?js0 ! k \<le> k"
      using js js0 n(1) by (simp_all add: choice_vectors_def)
    have "\<forall>k. 1 \<le> k \<and> k \<le> m \<longrightarrow> js ! k = ?js0 ! k"
      using assms(1) n(2) b run run0 by (intro fisher_yates_from_inj[of xs m]) simp_all
    moreover have "js ! 0 = ?js0 ! 0"
    proof -
      have "js ! 0 \<le> 0" "?js0 ! 0 \<le> 0" using b by blast+
      then show ?thesis by linarith
    qed
    ultimately show "js ! i = ?js0 ! i"
      using i n(1) by (cases i) simp_all
  qed
  then have "{js \<in> choice_vectors n. fisher_yates_from (nth js) m xs = ys} = {?js0}"
    using js0 run0 by blast
  then show ?thesis
    using n by (simp add: fisher_yates_def n_def)
qed

lemma fisher_yates_from_map:
  "\<forall>k\<le>i. pick k \<le> k \<Longrightarrow> i < length xs \<Longrightarrow>
   fisher_yates_from pick i (map f xs) = map f (fisher_yates_from pick i xs)"
proof (induction i arbitrary: xs)
  case 0
  then show ?case by simp
next
  case (Suc i)
  let ?j = "pick (Suc i)"
  let ?a = "xs[Suc i := xs ! ?j, ?j := xs ! Suc i]"
  have j: "?j < length xs" using Suc.prems by (meson le_refl le_less_trans)
  have "(map f xs)[Suc i := map f xs ! ?j, ?j := map f xs ! Suc i] = map f ?a"
    using j Suc.prems(2) by (simp add: map_update)
  moreover have "fisher_yates_from pick i (map f ?a) = map f (fisher_yates_from pick i ?a)"
    using Suc.prems by (intro Suc.IH) simp_all
  ultimately show ?case by simp
qed

lemma fisher_yates_by_positions:
  assumes "\<forall>k. pick k \<le> k"
  shows "fisher_yates pick xs = map (nth xs) (fisher_yates pick [0..<length xs])"
proof (cases xs)
  case Nil
  then show ?thesis by (simp add: fisher_yates_def)
next
  case (Cons x xs')
  then have l: "length xs - 1 < length [0..<length xs]" by simp
  have "fisher_yates_from pick (length xs - 1) (map (nth xs) [0..<length xs])
          = map (nth xs) (fisher_yates_from pick (length xs - 1) [0..<length xs])"
    using assms l by (intro fisher_yates_from_map) simp_all
  then show ?thesis
    by (simp add: fisher_yates_def map_nth)
qed

text \<open>
  Claim C3. The random source is the stream of the indices that the source draws, each
  below the current index. \<open>shuffle\<close> then computes what the Fisher-Yates loop computes
  that, for \<open>i\<close> from \<open>length - 1\<close> down to 1, swaps element \<open>i\<close> with the element at the
  index drawn for \<open>i\<close> (the last round of the source, at position 0, swaps the first
  element with itself), and the index drawn for position \<open>i\<close> lies in \<open>[0, i]\<close>. There are
  \<open>length!\<close> vectors of choices, and when the elements of the input are distinct every
  permutation of the input is the result of exactly one of them: when the choices are
  uniform and independent, every permutation has the same probability, \<open>1 / length!\<close>.
  For any input the result is the input rearranged by the result for the list of its
  positions, whose elements are distinct.
\<close>

theorem shuffle_is_uniform_fisher_yates:
  assumes "index_draws rnd"
  shows "shuffle rnd xs = fisher_yates (drawn_indices rnd (length xs)) xs \<and>
         (\<forall>i. drawn_indices rnd (length xs) i \<le> i) \<and>
         card (choice_vectors (length xs)) = fact (length xs) \<and>
         (distinct xs \<and> mset ys = mset xs \<longrightarrow>
            card {js \<in> choice_vectors (length xs). fisher_yates (nth js) xs = ys} = 1) \<and>
         fisher_yates (drawn_indices rnd (length xs)) xs
           = map (nth xs) (fisher_yates (drawn_indices rnd (length xs)) [0..<length xs])"
proof (intro conjI allI impI)
  show "fisher_yates (drawn_indices rnd (length xs)) xs
          = map (nth xs) (fisher_yates (drawn_indices rnd (length xs)) [0..<length xs])"
    using assms by (intro fisher_yates_by_positions) (simp add: drawn_indices_le)
  show "shuffle rnd xs = fisher_yates (drawn_indices rnd (length xs)) xs"
    using assms by (rule shuffle_fisher_yates)
  show "drawn_indices rnd (length xs) i \<le> i" for i
    using assms by (rule drawn_indices_le)
  show "card (choice_vectors (length xs)) = fact (length xs)"
    by (simp add: card_choice_vectors)
  show "card {js \<in> choice_vectors (length xs). fisher_yates (nth js) xs = ys} = 1"
    if "distinct xs \<and> mset ys = mset xs"
    using that by (intro one_choice_vector_per_permutation) simp_all
qed

theorem shuffle_is_uniform_fisher_yates_witness:
  "index_draws zero_draws \<and>
   shuffle zero_draws [1, 2, 3 :: nat] = [2, 3, 1] \<and>
   fisher_yates (drawn_indices zero_draws 3) [1, 2, 3 :: nat] = [2, 3, 1] \<and>
   card (choice_vectors 3) = 6 \<and>
   distinct [1, 2, 3 :: nat] \<and> mset [2, 3, 1 :: nat] = mset [1, 2, 3] \<and>
   card {js \<in> choice_vectors 3. fisher_yates (nth js) [1, 2, 3 :: nat] = [2, 3, 1]} = 1"
proof -
  have u: "index_draws zero_draws"
    by (simp add: index_draws_def zero_draws_def)
  have s: "shuffle zero_draws [1, 2, 3 :: nat] = [2, 3, 1]"
    by (simp add: shuffle_def eval_nat_numeral zero_draws_def)
  have d: "distinct [1, 2, 3 :: nat] \<and> mset [2, 3, 1 :: nat] = mset [1, 2, 3]"
    by simp
  have f: "fact 3 = (6 :: nat)"
    by (simp add: eval_nat_numeral)
  have l: "length [1, 2, 3 :: nat] = 3"
    by simp
  note T = shuffle_is_uniform_fisher_yates [OF u, of "[1, 2, 3 :: nat]" "[2, 3, 1]", unfolded l]
  have p1: "fisher_yates (drawn_indices zero_draws 3) [1, 2, 3 :: nat] = [2, 3, 1]"
    using T s by metis
  have p2: "card (choice_vectors 3) = 6"
    using T f by metis
  have p3: "card {js \<in> choice_vectors 3. fisher_yates (nth js) [1, 2, 3 :: nat] = [2, 3, 1]} = 1"
    using T d by blast
  show ?thesis
    using u s d p1 p2 p3 by blast
qed

end
